theory Spec2Isabelle
  imports Main "HOL-Library.AList" "HOL-Library.Char_ord" "HOL-Library.List_Lexorder"
    "HOL-Library.Option_ord" "HOL-Library.Product_Lexorder"
begin

section \<open>Strings\<close>

text \<open>
  Python strings are sequences of code points compared lexicographically by code point.
  They are modelled as \<open>string\<close>, one \<open>char\<close> for each code point below 256, with the
  order of \<open>Char_ord\<close> and \<open>List_Lexorder\<close>. \<open>str.startswith\<close>, \<open>str.rfind\<close> (the
  highest index of a character, \<open>-1\<close> when it does not occur), the substring test
  \<open>a in b\<close> and \<open>str.lower\<close> are written out. Below 256 the characters that
  \<open>str.lower\<close> changes are \<open>A\<close> to \<open>Z\<close> and the Latin-1 capitals \<open>0xC0\<close> to \<open>0xDE\<close>
  without the multiplication sign \<open>0xD7\<close>; each moves up by 32.
\<close>

definition startswith :: "string \<Rightarrow> string \<Rightarrow> bool" where
  "startswith s p = (take (length p) s = p)"

fun rfind_from :: "char \<Rightarrow> string \<Rightarrow> int \<Rightarrow> int \<Rightarrow> int" where
  "rfind_from c [] i best = best"
| "rfind_from c (x # xs) i best = rfind_from c xs (i + 1) (if x = c then i else best)"

definition rfind :: "string \<Rightarrow> char \<Rightarrow> int" where
  "rfind s c = rfind_from c s 0 (- 1)"

fun contains :: "string \<Rightarrow> string \<Rightarrow> bool" where
  "contains [] p = (p = [])"
| "contains (x # xs) p = (startswith (x # xs) p \<or> contains xs p)"

definition lower_char :: "char \<Rightarrow> char" where
  "lower_char c =
     (let n = (of_char c :: nat)
      in if (65 \<le> n \<and> n \<le> 90) \<or> (192 \<le> n \<and> n \<le> 222 \<and> n \<noteq> 215)
         then char_of (n + 32) else c)"

definition lower :: "string \<Rightarrow> string" where
  "lower s = map lower_char s"

definition extract_local_name :: "string \<Rightarrow> string" where
  "extract_local_name uri =
     (let hash_idx = rfind uri CHR ''#'';
          slash_idx = rfind uri CHR ''/'';
          idx = max hash_idx slash_idx
      in if idx \<ge> 0 then drop (nat (idx + 1)) uri else uri)"

definition extract_namespace :: "string \<Rightarrow> string" where
  "extract_namespace uri =
     (let hash_idx = rfind uri CHR ''#''
      in if hash_idx \<ge> 0 then take (nat (hash_idx + 1)) uri
         else let slash_idx = rfind uri CHR ''/''
              in if slash_idx \<ge> 0 then take (nat (slash_idx + 1)) uri else uri)"

section \<open>The query gateway\<close>

text \<open>
  \<open>Store.query\<close> hands a SPARQL text to the triple store and returns the solutions as
  dictionaries from variable names to strings: an IRI or a literal as its value, a blank
  node with the prefix \<open>_:\<close>, an unbound variable as a missing key. The store is a
  library outside the repository, so it is modelled by its answers: one constructor per
  query text of \<open>web.py\<close>, with the arguments interpolated into the text.
\<close>

type_synonym row = "string \<rightharpoonup> string"

datatype query =
    HierarchyQuery string
  | SelectedNamespaceQuery string
  | DisplayModeQuery string
  | ShowDeprecatedQuery string
  | SkosMembersCount string string
  | OneOfCount string string
  | EquivOneOfCount string string
  | CollectionCount string string
  | LabelQuery string string
  | SkosSchemeMembers string string
  | SkosCollectionMembers string string
  | OneOfMembers string string
  | EquivOneOfMembers string string
  | DomainQuery string string
  | ParentQuery string string
  | RangeQuery string string
  | BlankRangeQuery string string

type_synonym store = "query \<Rightarrow> row list"

text \<open>\<open>x or d\<close> on an optional string: \<open>None\<close> and the empty string are false.\<close>

definition py_or :: "string option \<Rightarrow> string \<Rightarrow> string" where
  "py_or v d = (case v of None \<Rightarrow> d | Some s \<Rightarrow> if s = [] then d else s)"

section \<open>The class hierarchy\<close>

definition EXCLUDED_CLASSES :: "string set" where
  "EXCLUDED_CLASSES =
     {''http://www.w3.org/2002/07/owl#Thing'',
      ''http://www.w3.org/2002/07/owl#Nothing'',
      ''http://www.w3.org/2000/01/rdf-schema#Resource'',
      ''http://www.w3.org/2000/01/rdf-schema#Class'',
      ''http://www.w3.org/2002/07/owl#Class''}"

record HierarchyNode =
  uri :: string
  label :: string
  prefix_iri :: "string option"
  entity_type :: string
  parent_uris :: "string list"
  is_external :: bool
  is_deprecated :: bool

record OntologyConfig =
  ontology_uri :: string
  selected_namespaces :: "string list"
  display_name_mode :: string
  show_deprecated :: bool

definition get_ontology_config :: "store \<Rightarrow> string \<Rightarrow> OntologyConfig" where
  "get_ontology_config store ontology =
     (let ns_results = store (SelectedNamespaceQuery ontology);
          namespaces = concat (map (\<lambda>r. case r ''namespace'' of
                                       None \<Rightarrow> []
                                     | Some n \<Rightarrow> if n = [] then [] else [n]) ns_results);
          mode_results = store (DisplayModeQuery ontology);
          display_mode = (case mode_results of
                            [] \<Rightarrow> ''label''
                          | r # _ \<Rightarrow> (case r ''mode'' of None \<Rightarrow> ''label'' | Some m \<Rightarrow> m));
          deprecated_results = store (ShowDeprecatedQuery ontology);
          show = (case deprecated_results of
                    [] \<Rightarrow> False
                  | r # _ \<Rightarrow> lower (case r ''show'' of None \<Rightarrow> ''false'' | Some v \<Rightarrow> v) = ''true'')
      in \<lparr>ontology_uri = ontology, selected_namespaces = namespaces,
          display_name_mode = display_mode, show_deprecated = show\<rparr>)"

text \<open>
  The nested function \<open>is_external\<close> of \<open>get_class_hierarchy\<close> closes over the set of
  internal namespaces; here the set is its first argument.
\<close>

definition is_external_uri :: "string set \<Rightarrow> string \<Rightarrow> bool" where
  "is_external_uri internal_namespaces u = (extract_namespace u \<notin> internal_namespaces)"

text \<open>
  The dictionaries \<open>nodes\<close> and \<open>children_map\<close> keep insertion order, so they are
  association lists: \<open>AList.update\<close> appends a new key at the end, \<open>AList.map_entry\<close>
  changes the value of a key in place.
\<close>

record build_state =
  nodes :: "(string \<times> HierarchyNode) list"
  children_map :: "(string \<times> string list) list"
  deprecated_classes :: "string set"

definition row_is_deprecated :: "row \<Rightarrow> bool" where
  "row_is_deprecated r =
     (case r ''deprecated'' of
        None \<Rightarrow> False
      | Some d \<Rightarrow> if d = [] then False else lower d = ''true'')"

definition add_parent :: "string \<Rightarrow> string \<Rightarrow> build_state \<Rightarrow> build_state" where
  "add_parent class_uri parent st =
     (let ns1 = AList.map_entry class_uri
                  (\<lambda>n. if parent \<notin> set (parent_uris n)
                        then n\<lparr>parent_uris := parent_uris n @ [parent]\<rparr> else n) (nodes st);
          cm1 = (if map_of (children_map st) parent = None
                 then AList.update parent [] (children_map st) else children_map st);
          cm2 = AList.map_entry parent
                  (\<lambda>cs. if class_uri \<notin> set cs then cs @ [class_uri] else cs) cm1
      in st\<lparr>nodes := ns1, children_map := cm2\<rparr>)"

definition new_node :: "string set \<Rightarrow> row \<Rightarrow> string \<Rightarrow> HierarchyNode" where
  "new_node internal_namespaces r class_uri =
     \<lparr>uri = class_uri,
      label = py_or (r ''label'') (extract_local_name class_uri),
      prefix_iri = r ''prefixIRI'',
      entity_type = ''Class'',
      parent_uris = [],
      is_external = is_external_uri internal_namespaces class_uri,
      is_deprecated = row_is_deprecated r\<rparr>"

text \<open>The first half of the loop body: the deprecated flag and the node of a new class.\<close>

definition with_node :: "string set \<Rightarrow> row \<Rightarrow> string \<Rightarrow> build_state \<Rightarrow> build_state" where
  "with_node internal_namespaces r class_uri st =
     (let st1 = (if row_is_deprecated r
                 then st\<lparr>deprecated_classes := insert class_uri (deprecated_classes st)\<rparr>
                 else st)
      in if map_of (nodes st1) class_uri = None
         then st1\<lparr>nodes := AList.update class_uri (new_node internal_namespaces r class_uri)
                              (nodes st1)\<rparr>
         else st1)"

definition build_row :: "string set \<Rightarrow> row \<Rightarrow> build_state \<Rightarrow> build_state" where
  "build_row internal_namespaces r st =
     (case r ''class'' of
        None \<Rightarrow> st
      | Some class_uri \<Rightarrow>
          (if class_uri = [] then st
           else (case r ''parent'' of
                   None \<Rightarrow> with_node internal_namespaces r class_uri st
                 | Some parent \<Rightarrow>
                     (if parent \<noteq> [] \<and> parent \<notin> EXCLUDED_CLASSES \<and>
                         \<not> startswith parent ''_:''
                      then add_parent class_uri parent
                             (with_node internal_namespaces r class_uri st)
                      else with_node internal_namespaces r class_uri st))))"

definition build :: "string set \<Rightarrow> row list \<Rightarrow> build_state" where
  "build internal_namespaces class_data =
     fold (build_row internal_namespaces) class_data
       \<lparr>nodes = [], children_map = [], deprecated_classes = {}\<rparr>"

definition children_of :: "(string \<times> string list) list \<Rightarrow> string \<Rightarrow> string list" where
  "children_of cm u = (case map_of cm u of None \<Rightarrow> [] | Some cs \<Rightarrow> cs)"

text \<open>
  \<open>has_internal_descendant\<close> mutates the set \<open>visited\<close> that its caller passed; the
  model returns the set with the answer. \<open>descend_children\<close> is the \<open>for\<close> loop over
  the children of one class, with its two early returns. The variables of the enclosing
  function that the source reads, \<open>internal_namespaces\<close>, \<open>nodes\<close> and \<open>children_map\<close>,
  are the arguments \<open>I\<close>, \<open>ns\<close> and \<open>cm\<close>.
\<close>

function has_internal_descendant ::
    "string set \<Rightarrow> (string \<times> HierarchyNode) list \<Rightarrow> (string \<times> string list) list \<Rightarrow>
     string \<Rightarrow> string set \<Rightarrow> bool \<times> string set"
  and descend_children ::
    "string set \<Rightarrow> (string \<times> HierarchyNode) list \<Rightarrow> (string \<times> string list) list \<Rightarrow>
     string list \<Rightarrow> string set \<Rightarrow> bool \<times> string set"
where
  "has_internal_descendant I ns cm u visited =
     (if u \<in> visited then (False, visited)
      else descend_children I ns cm (children_of cm u) (insert u visited))"
| "descend_children I ns cm [] visited = (False, visited)"
| "descend_children I ns cm (child_uri # rest) visited =
     (case map_of ns child_uri of
        None \<Rightarrow> descend_children I ns cm rest visited
      | Some child \<Rightarrow>
          if \<not> is_external_uri I child_uri then (True, visited)
          else (case has_internal_descendant I ns cm child_uri visited of
                  (True, visited') \<Rightarrow> (True, visited')
                | (False, visited') \<Rightarrow> descend_children I ns cm rest visited'))"
  by pat_completeness auto

lemma visited_mono_dom:
  "has_internal_descendant_descend_children_dom (Inl (I, ns, cm, u, V)) \<Longrightarrow>
     V \<subseteq> snd (has_internal_descendant I ns cm u V)"
  "has_internal_descendant_descend_children_dom (Inr (I, ns, cm, cs, V)) \<Longrightarrow>
     V \<subseteq> snd (descend_children I ns cm cs V)"
proof (induction I ns cm u V and I ns cm cs V rule: has_internal_descendant_descend_children.pinduct)
  case (1 I ns cm u visited)
  then show ?case by (auto simp: has_internal_descendant.psimps)
next
  case (2 I ns cm visited)
  then show ?case by (simp add: descend_children.psimps)
next
  case (3 I ns cm child_uri rest visited)
  show ?case
  proof (cases "map_of ns child_uri")
    case None
    with 3 show ?thesis by (simp add: descend_children.psimps)
  next
    case (Some child)
    show ?thesis
    proof (cases "is_external_uri I child_uri")
      case False
      with 3(1) Some show ?thesis by (simp add: descend_children.psimps)
    next
      case True
      obtain b V' where r: "has_internal_descendant I ns cm child_uri visited = (b, V')"
        by (cases "has_internal_descendant I ns cm child_uri visited")
      from 3(3)[OF Some] True r have m1: "visited \<subseteq> V'" by simp
      show ?thesis
      proof (cases b)
        case True
        with 3(1) Some \<open>is_external_uri I child_uri\<close> r m1 show ?thesis
          by (simp add: descend_children.psimps)
      next
        case False
        have "V' \<subseteq> snd (descend_children I ns cm rest V')"
          by (rule 3(4)[OF Some _ _ refl]) (use \<open>is_external_uri I child_uri\<close> r False in simp_all)
        with 3(1) Some \<open>is_external_uri I child_uri\<close> r m1 False show ?thesis
          by (auto simp add: descend_children.psimps)
      qed
    qed
  qed
qed

termination has_internal_descendant
  apply (relation
    "(\<lambda>x. case x of Inl (I, ns, cm, u, V) \<Rightarrow> card (fst ` set cm - V)
                    | Inr (I, ns, cm, cs, V) \<Rightarrow> card (fst ` set cm - V))
     <*mlex*>
     measure (\<lambda>x. case x of Inl _ \<Rightarrow> Suc 0
                    | Inr (I, ns, cm, cs, V) \<Rightarrow> if cs = [] then 0 else Suc (length cs))")
  subgoal by (simp add: wf_mlex)
  subgoal for I ns cm u visited
  proof (cases "u \<in> fst ` set cm")
    case True
    assume "u \<notin> visited"
    with True have "card (fst ` set cm - insert u visited) < card (fst ` set cm - visited)"
      by (intro psubset_card_mono) auto
    then show ?thesis by (simp add: mlex_prod_def)
  next
    case False
    then have "map_of cm u = None" by (simp add: map_of_eq_None_iff)
    moreover from False have "fst ` set cm - insert u visited = fst ` set cm - visited" by auto
    ultimately show ?thesis by (simp add: mlex_prod_def children_of_def)
  qed
  subgoal by (simp add: mlex_prod_def)
  subgoal by (simp add: mlex_prod_def)
  subgoal premises prems for I ns cm child_uri rest visited child b V'
  proof -
    from prems(3) have "snd (has_internal_descendant I ns cm child_uri visited) = V'"
      by (metis snd_conv)
    with visited_mono_dom(1)[OF prems(5)] have "visited \<subseteq> V'" by simp
    then have "card (fst ` set cm - V') \<le> card (fst ` set cm - visited)"
      by (intro card_mono) auto
    then show ?thesis by (auto simp add: mlex_prod_def)
  qed
  done

declare has_internal_descendant.simps [simp del]

definition class_data :: "store \<Rightarrow> string \<Rightarrow> row list" where
  "class_data store ontology =
     filter (\<lambda>r. case r ''class'' of
                    None \<Rightarrow> False
                  | Some class_uri \<Rightarrow>
                      class_uri \<noteq> [] \<and> \<not> startswith class_uri ''_:'' \<and>
                      class_uri \<notin> EXCLUDED_CLASSES)
       (store (HierarchyQuery ontology))"

text \<open>
  \<open>_detect_internal_namespaces\<close> compares namespace counts with a floating-point
  threshold; it is a parameter of the model, a function from the set of class URIs to
  the set of internal namespaces. A stored selection overrides it, as in the source.
\<close>

definition internal_namespaces ::
    "(string set \<Rightarrow> string set) \<Rightarrow> store \<Rightarrow> string \<Rightarrow> string set" where
  "internal_namespaces detect store ontology =
     (let config = get_ontology_config store ontology
      in if selected_namespaces config \<noteq> [] then set (selected_namespaces config)
         else detect (set (concat (map (\<lambda>r. case r ''class'' of
                                              None \<Rightarrow> []
                                            | Some c \<Rightarrow> if c = [] then [] else [c])
                                      (class_data store ontology)))))"

text \<open>The promotion loop: an external node with an internal descendant becomes internal.\<close>

definition promote :: "string set \<Rightarrow> build_state \<Rightarrow> (string \<times> HierarchyNode) list" where
  "promote I st =
     map (\<lambda>(u, node).
            (u, if is_external node
                then (if fst (has_internal_descendant I (nodes st) (children_map st) u {})
                      then node\<lparr>is_external := False\<rparr> else node)
                else node))
       (nodes st)"

definition hierarchy_state ::
    "(string set \<Rightarrow> string set) \<Rightarrow> store \<Rightarrow> string \<Rightarrow> build_state" where
  "hierarchy_state detect store ontology =
     build (internal_namespaces detect store ontology) (class_data store ontology)"

definition get_class_hierarchy ::
    "(string set \<Rightarrow> string set) \<Rightarrow> store \<Rightarrow> string \<Rightarrow> HierarchyNode list" where
  "get_class_hierarchy detect store ontology =
     (let config = get_ontology_config store ontology;
          I = internal_namespaces detect store ontology;
          st = hierarchy_state detect store ontology;
          result_nodes = map snd (promote I st);
          result_nodes' = (if \<not> show_deprecated config
                           then filter (\<lambda>n. \<not> is_deprecated n) result_nodes
                           else result_nodes)
      in sort_key (\<lambda>n. lower (HierarchyNode.label n)) result_nodes')"

text \<open>The edges of \<open>children_map\<close>, from a parent to each of its recorded children.\<close>

definition child_edges :: "(string \<times> string list) list \<Rightarrow> (string \<times> string) set" where
  "child_edges cm = {(p, c). c \<in> set (children_of cm p)}"

text \<open>
  The invariant of the loop that builds \<open>nodes\<close> and \<open>children_map\<close>: keys are
  distinct, every node carries its key, the flag computed from its namespace and only
  admissible parents, and every recorded child is itself a node.
\<close>

definition valid_class :: "string \<Rightarrow> bool" where
  "valid_class c = (c \<noteq> [] \<and> \<not> startswith c ''_:'' \<and> c \<notin> EXCLUDED_CLASSES)"

definition node_ok :: "string set \<Rightarrow> string \<Rightarrow> HierarchyNode \<Rightarrow> bool" where
  "node_ok I k n =
     (uri n = k \<and> valid_class k \<and> is_external n = is_external_uri I k \<and>
      (\<forall>p \<in> set (parent_uris n). p \<notin> EXCLUDED_CLASSES \<and> \<not> startswith p ''_:''))"

definition build_inv :: "string set \<Rightarrow> build_state \<Rightarrow> bool" where
  "build_inv I st =
     (distinct (map fst (nodes st)) \<and>
      (\<forall>k n. map_of (nodes st) k = Some n \<longrightarrow> node_ok I k n) \<and>
      (\<forall>p c. c \<in> set (children_of (children_map st) p) \<longrightarrow> map_of (nodes st) c \<noteq> None))"

definition has_parent :: "(string \<times> HierarchyNode) list \<Rightarrow> string \<Rightarrow> string \<Rightarrow> bool" where
  "has_parent ns c p = (case map_of ns c of None \<Rightarrow> False | Some n \<Rightarrow> p \<in> set (parent_uris n))"

section \<open>The property resolver\<close>

definition OWL_OBJECT_PROPERTY :: string where
  "OWL_OBJECT_PROPERTY = ''http://www.w3.org/2002/07/owl#ObjectProperty''"

definition OWL_DATATYPE_PROPERTY :: string where
  "OWL_DATATYPE_PROPERTY = ''http://www.w3.org/2002/07/owl#DatatypeProperty''"

definition OWL_ANNOTATION_PROPERTY :: string where
  "OWL_ANNOTATION_PROPERTY = ''http://www.w3.org/2002/07/owl#AnnotationProperty''"

text \<open>The dictionaries \<open>{"uri": ..., "label": ...}\<close> of domains, ranges and ancestors.\<close>

record uri_label =
  ref_uri :: string
  ref_label :: string

record PropertyInfo =
  uri :: string
  label :: "string option"
  property_type :: string
  domains :: "uri_label list"
  ranges :: "uri_label list"

record InheritedPropertyGroup =
  from_class :: uri_label
  properties :: "PropertyInfo list"

record ClassProperties =
  domain_of :: "PropertyInfo list"
  inherited :: "InheritedPropertyGroup list"
  range_of :: "PropertyInfo list"

definition resolve_blank_node_range :: "store \<Rightarrow> string \<Rightarrow> string \<Rightarrow> uri_label list" where
  "resolve_blank_node_range store graph_uri property_uri =
     concat (map (\<lambda>r. case r ''member'' of
                         None \<Rightarrow> []
                       | Some member_uri \<Rightarrow>
                           if member_uri = [] then []
                           else [\<lparr>ref_uri = member_uri,
                                  ref_label = py_or (r ''memberLabel'')
                                                (extract_local_name member_uri)\<rparr>])
               (store (BlankRangeQuery graph_uri property_uri)))"

definition property_type_of :: "row \<Rightarrow> string" where
  "property_type_of r =
     (let prop_type_uri = (case r ''propType'' of None \<Rightarrow> [] | Some t \<Rightarrow> t)
      in if contains prop_type_uri OWL_DATATYPE_PROPERTY then ''DatatypeProperty''
         else if contains prop_type_uri OWL_ANNOTATION_PROPERTY then ''AnnotationProperty''
         else ''ObjectProperty'')"

definition add_range :: "row \<Rightarrow> string \<Rightarrow> PropertyInfo \<Rightarrow> PropertyInfo" where
  "add_range r range_uri p =
     (if range_uri \<notin> set (map ref_uri (ranges p))
      then p\<lparr>ranges := ranges p @
                [\<lparr>ref_uri = range_uri,
                  ref_label = py_or (r ''rangeLabel'') (extract_local_name range_uri)\<rparr>]\<rparr>
      else p)"

text \<open>One iteration of the loop over the rows of the domain query.\<close>

definition domain_row ::
    "string \<Rightarrow> row \<Rightarrow> (string \<times> PropertyInfo) list \<Rightarrow> (string \<times> PropertyInfo) list" where
  "domain_row class_uri r props =
     (case r ''prop'' of
        None \<Rightarrow> props
      | Some prop_uri \<Rightarrow>
          (if prop_uri = [] then props
           else
             let props1 =
                   (if map_of props prop_uri = None
                    then AList.update prop_uri
                           \<lparr>uri = prop_uri,
                            label = Some (py_or (r ''propLabel'') (extract_local_name prop_uri)),
                            property_type = property_type_of r,
                            domains = [\<lparr>ref_uri = class_uri,
                                        ref_label = extract_local_name class_uri\<rparr>],
                            ranges = []\<rparr> props
                    else props)
             in (case r ''range'' of
                   None \<Rightarrow> props1
                 | Some range_uri \<Rightarrow>
                     (if range_uri \<noteq> [] \<and> \<not> startswith range_uri ''_:''
                      then AList.map_entry prop_uri (add_range r range_uri) props1
                      else props1))))"

definition resolve_ranges :: "store \<Rightarrow> string \<Rightarrow> string \<Rightarrow> PropertyInfo \<Rightarrow> PropertyInfo" where
  "resolve_ranges store ontology prop_uri prop_info =
     (if ranges prop_info = []
      then (let resolved = resolve_blank_node_range store ontology prop_uri
            in if resolved \<noteq> [] then prop_info\<lparr>ranges := ranges prop_info @ resolved\<rparr>
               else prop_info)
      else prop_info)"

definition get_properties_for_class ::
    "store \<Rightarrow> string \<Rightarrow> string \<Rightarrow> (string \<times> PropertyInfo) list" where
  "get_properties_for_class store ontology class_uri =
     (let domain_results = store (DomainQuery ontology class_uri);
          props = fold (domain_row class_uri) domain_results []
      in map (\<lambda>(prop_uri, prop_info). (prop_uri, resolve_ranges store ontology prop_uri prop_info))
           props)"

text \<open>
  \<open>_get_superclass_chain\<close>: the loop \<open>for _ in range(50)\<close> is a recursion on the
  number of iterations left. With the chain the model returns the number of parent
  queries the loop issued.
\<close>

fun superclass_loop ::
    "store \<Rightarrow> string \<Rightarrow> nat \<Rightarrow> string \<Rightarrow> string set \<Rightarrow> uri_label list \<Rightarrow>
     uri_label list \<times> nat" where
  "superclass_loop store ontology 0 current visited superclasses = (superclasses, 0)"
| "superclass_loop store ontology (Suc k) current visited superclasses =
     (case store (ParentQuery ontology current) of
        [] \<Rightarrow> (superclasses, 1)
      | r # _ \<Rightarrow>
          (case r ''parent'' of
             None \<Rightarrow> (superclasses, 1)
           | Some parent_uri \<Rightarrow>
               (if parent_uri = [] \<or> parent_uri \<in> visited then (superclasses, 1)
                else if parent_uri \<in> EXCLUDED_CLASSES then (superclasses, 1)
                else (let (chain, steps) =
                            superclass_loop store ontology k parent_uri
                              (insert parent_uri visited)
                              (superclasses @
                                 [\<lparr>ref_uri = parent_uri,
                                   ref_label = py_or (r ''parentLabel'')
                                                 (extract_local_name parent_uri)\<rparr>])
                      in (chain, Suc steps)))))"

definition superclass_walk :: "store \<Rightarrow> string \<Rightarrow> string \<Rightarrow> uri_label list \<times> nat" where
  "superclass_walk store ontology class_uri =
     superclass_loop store ontology 50 class_uri {class_uri} []"

definition get_superclass_chain :: "store \<Rightarrow> string \<Rightarrow> string \<Rightarrow> uri_label list" where
  "get_superclass_chain store ontology class_uri = fst (superclass_walk store ontology class_uri)"

text \<open>The sort key \<open>x.label or ""\<close>.\<close>

definition label_key :: "PropertyInfo \<Rightarrow> string" where
  "label_key x = (case PropertyInfo.label x of None \<Rightarrow> [] | Some l \<Rightarrow> l)"

definition inherit_step ::
    "store \<Rightarrow> string \<Rightarrow> uri_label \<Rightarrow> InheritedPropertyGroup list \<times> string set \<Rightarrow>
     InheritedPropertyGroup list \<times> string set" where
  "inherit_step store ontology ancestor acc =
     (let (inherited_groups, seen_prop_uris) = acc;
          ancestor_props = get_properties_for_class store ontology (ref_uri ancestor);
          new_props = filter (\<lambda>(u, prop). u \<notin> seen_prop_uris) ancestor_props
      in if new_props \<noteq> []
         then (inherited_groups @
                 [\<lparr>from_class = ancestor,
                   properties = sort_key label_key (map snd new_props)\<rparr>],
               seen_prop_uris \<union> set (map fst new_props))
         else (inherited_groups, seen_prop_uris))"

definition add_domain :: "row \<Rightarrow> string \<Rightarrow> PropertyInfo \<Rightarrow> PropertyInfo" where
  "add_domain r domain_uri p =
     (if domain_uri \<notin> set (map ref_uri (domains p))
      then p\<lparr>domains := domains p @
                [\<lparr>ref_uri = domain_uri,
                  ref_label = py_or (r ''domainLabel'') (extract_local_name domain_uri)\<rparr>]\<rparr>
      else p)"

definition range_row ::
    "string \<Rightarrow> row \<Rightarrow> (string \<times> PropertyInfo) list \<Rightarrow> (string \<times> PropertyInfo) list" where
  "range_row class_uri r range_props =
     (case r ''prop'' of
        None \<Rightarrow> range_props
      | Some prop_uri \<Rightarrow>
          (if prop_uri = [] then range_props
           else
             let props1 =
                   (if map_of range_props prop_uri = None
                    then AList.update prop_uri
                           \<lparr>uri = prop_uri,
                            label = Some (py_or (r ''propLabel'') (extract_local_name prop_uri)),
                            property_type = property_type_of r,
                            domains = [],
                            ranges = [\<lparr>ref_uri = class_uri,
                                       ref_label = extract_local_name class_uri\<rparr>]\<rparr>
                           range_props
                    else range_props)
             in (case r ''domain'' of
                   None \<Rightarrow> props1
                 | Some domain_uri \<Rightarrow>
                     (if domain_uri \<noteq> [] \<and> \<not> startswith domain_uri ''_:''
                      then AList.map_entry prop_uri (add_domain r domain_uri) props1
                      else props1))))"

definition get_class_properties :: "store \<Rightarrow> string \<Rightarrow> string \<Rightarrow> ClassProperties" where
  "get_class_properties store ontology class_uri =
     (let domain_props = get_properties_for_class store ontology class_uri;
          superclasses = get_superclass_chain store ontology class_uri;
          inherited_groups =
            fst (fold (inherit_step store ontology) superclasses ([], set (map fst domain_props)));
          range_results = store (RangeQuery ontology class_uri);
          range_props = fold (range_row class_uri) range_results []
      in \<lparr>domain_of = sort_key label_key (map snd domain_props),
          inherited = inherited_groups,
          range_of = sort_key label_key (map snd range_props)\<rparr>)"

text \<open>
  The parent that the walk follows from a class: the \<open>parent\<close> of the first row of the
  parent query, when there is one and it is not empty. The walk stops at a class that
  has none, or whose parent was visited or is an excluded root.
\<close>

definition first_parent :: "store \<Rightarrow> string \<Rightarrow> string \<Rightarrow> string option" where
  "first_parent store ontology current =
     (case store (ParentQuery ontology current) of
        [] \<Rightarrow> None
      | r # _ \<Rightarrow> (case r ''parent'' of
                    None \<Rightarrow> None
                  | Some parent_uri \<Rightarrow> if parent_uri = [] then None else Some parent_uri))"

definition walk_stops :: "store \<Rightarrow> string \<Rightarrow> string \<Rightarrow> string set \<Rightarrow> bool" where
  "walk_stops store ontology current visited =
     (case first_parent store ontology current of
        None \<Rightarrow> True
      | Some parent_uri \<Rightarrow> parent_uri \<in> visited \<or> parent_uri \<in> EXCLUDED_CLASSES)"

text \<open>The concrete ranges that the rows of the domain query declare for a property.\<close>

definition declared_ranges :: "row list \<Rightarrow> string \<Rightarrow> string list" where
  "declared_ranges rows property_uri =
     concat (map (\<lambda>r. if r ''prop'' = Some property_uri
                       then (case r ''range'' of
                               None \<Rightarrow> []
                             | Some range_uri \<Rightarrow>
                                 if range_uri \<noteq> [] \<and> \<not> startswith range_uri ''_:''
                                 then [range_uri] else [])
                       else []) rows)"

section \<open>Code lists\<close>

datatype py_error = ValueError

text \<open>
  \<open>int(s)\<close> on the lexical form of an integer: an optional sign and decimal digits.
  Every other string raises \<open>ValueError\<close> in the model (Python also accepts blanks around
  the numeral and underscores between digits; the store renders a count as plain
  digits).
\<close>

definition digit_value :: "char \<Rightarrow> nat option" where
  "digit_value c = map_of (zip ''0123456789'' [0 ..< 10]) c"

fun digits_value :: "string \<Rightarrow> nat \<Rightarrow> nat option" where
  "digits_value [] acc = Some acc"
| "digits_value (c # cs) acc =
     (case digit_value c of None \<Rightarrow> None | Some d \<Rightarrow> digits_value cs (10 * acc + d))"

definition py_int :: "string \<Rightarrow> int option" where
  "py_int s =
     (case s of
        [] \<Rightarrow> None
      | c # cs \<Rightarrow>
          if c = CHR ''-'' then (if cs = [] then None
                                else map_option (\<lambda>n. - int n) (digits_value cs 0))
          else if c = CHR ''+'' then (if cs = [] then None
                                     else map_option int (digits_value cs 0))
          else map_option int (digits_value s 0))"

text \<open>
  The test \<open>result and int(result[0].get("count", 0)) > 0\<close> of one detection query.
\<close>

definition count_positive :: "row list \<Rightarrow> py_error + bool" where
  "count_positive result =
     (case result of
        [] \<Rightarrow> Inr False
      | r # _ \<Rightarrow>
          (case r ''count'' of
             None \<Rightarrow> Inr False
           | Some s \<Rightarrow> (case py_int s of None \<Rightarrow> Inl ValueError | Some n \<Rightarrow> Inr (n > 0))))"

text \<open>
  \<open>_detect_codelist_pattern\<close>, with the list of the queries it sent to the store.
\<close>

definition detect_codelist_pattern ::
    "store \<Rightarrow> string \<Rightarrow> string \<Rightarrow> query list \<times> (py_error + string option)" where
  "detect_codelist_pattern store graph_uri entity_uri =
     (let q1 = SkosMembersCount graph_uri entity_uri;
          q2 = OneOfCount graph_uri entity_uri;
          q3 = EquivOneOfCount graph_uri entity_uri;
          q4 = CollectionCount graph_uri entity_uri
      in case count_positive (store q1) of
           Inl e \<Rightarrow> ([q1], Inl e)
         | Inr True \<Rightarrow> ([q1], Inr (Some ''skos_scheme''))
         | Inr False \<Rightarrow>
        (case count_positive (store q2) of
           Inl e \<Rightarrow> ([q1, q2], Inl e)
         | Inr True \<Rightarrow> ([q1, q2], Inr (Some ''owl_oneof''))
         | Inr False \<Rightarrow>
        (case count_positive (store q3) of
           Inl e \<Rightarrow> ([q1, q2, q3], Inl e)
         | Inr True \<Rightarrow> ([q1, q2, q3], Inr (Some ''owl_equivalent_oneof''))
         | Inr False \<Rightarrow>
        (case count_positive (store q4) of
           Inl e \<Rightarrow> ([q1, q2, q3, q4], Inl e)
         | Inr True \<Rightarrow> ([q1, q2, q3, q4], Inr (Some ''skos_collection''))
         | Inr False \<Rightarrow> ([q1, q2, q3, q4], Inr None)))))"

text \<open>The field \<open>notation\<close> of \<open>CodeListMember\<close> is \<open>member_notation\<close> here.\<close>

record CodeListMember =
  uri :: string
  label :: string
  member_notation :: "string option"
  description :: "string option"

record CodeListInfo =
  uri :: string
  label :: "string option"
  pattern :: string
  member_count :: nat
  members :: "CodeListMember list"

text \<open>The two loops over the rows of a member query: SKOS members and list members.\<close>

definition skos_members :: "row list \<Rightarrow> CodeListMember list" where
  "skos_members results =
     concat (map (\<lambda>r. case r ''member'' of
                         None \<Rightarrow> []
                       | Some member_uri \<Rightarrow>
                           if member_uri = [] then []
                           else [\<lparr>CodeListMember.uri = member_uri,
                                  label = py_or (r ''label'')
                                            (py_or (r ''rdfsLabel'')
                                               (extract_local_name member_uri)),
                                  member_notation = r ''notation'',
                                  description = r ''description''\<rparr>]) results)"

definition oneof_members :: "row list \<Rightarrow> CodeListMember list" where
  "oneof_members results =
     concat (map (\<lambda>r. case r ''member'' of
                         None \<Rightarrow> []
                       | Some member_uri \<Rightarrow>
                           if member_uri = [] then []
                           else [\<lparr>CodeListMember.uri = member_uri,
                                  label = py_or (r ''label'') (extract_local_name member_uri),
                                  member_notation = None,
                                  description = None\<rparr>]) results)"

definition collect_members :: "store \<Rightarrow> string \<Rightarrow> string \<Rightarrow> string \<Rightarrow> CodeListMember list" where
  "collect_members store ontology entity pat =
     (if pat = ''skos_scheme'' then skos_members (store (SkosSchemeMembers ontology entity))
      else if pat = ''skos_collection''
      then skos_members (store (SkosCollectionMembers ontology entity))
      else if pat = ''owl_oneof'' then oneof_members (store (OneOfMembers ontology entity))
      else if pat = ''owl_equivalent_oneof''
      then oneof_members (store (EquivOneOfMembers ontology entity))
      else [])"

definition get_codelist_info :: "store \<Rightarrow> string \<Rightarrow> string \<Rightarrow> py_error + CodeListInfo option" where
  "get_codelist_info store ontology entity =
     (case snd (detect_codelist_pattern store ontology entity) of
        Inl e \<Rightarrow> Inl e
      | Inr None \<Rightarrow> Inr None
      | Inr (Some pat) \<Rightarrow>
          (if pat = [] then Inr None
           else
             let label_result = store (LabelQuery ontology entity);
                 entity_label = (case label_result of [] \<Rightarrow> None | r # _ \<Rightarrow> r ''label'');
                 ms = sort_key (\<lambda>m. lower (CodeListMember.label m))
                        (collect_members store ontology entity pat)
             in Inr (Some \<lparr>CodeListInfo.uri = entity,
                            label = Some (py_or entity_label (extract_local_name entity)),
                            pattern = pat,
                            member_count = length ms,
                            members = ms\<rparr>)))"

text \<open>
  The order that the specification names: by notation, then by label without regard to
  case; a member without notation comes before those that have one.
\<close>

definition notation_label_key :: "CodeListMember \<Rightarrow> string option \<times> string" where
  "notation_label_key m = (member_notation m, lower (CodeListMember.label m))"

definition returned_members :: "py_error + CodeListInfo option \<Rightarrow> CodeListMember list" where
  "returned_members res = (case res of Inr (Some info) \<Rightarrow> members info | _ \<Rightarrow> [])"

section \<open>The queries over a set of triples\<close>

text \<open>
  To relate the results to the content of a graph, the queries of the hierarchy builder
  and of the property resolver are evaluated over a list of triples per named graph: a
  basic graph pattern is a join over the matching triples, \<open>OPTIONAL\<close> keeps a solution
  that has no extension, \<open>FILTER\<close> drops solutions, \<open>DISTINCT\<close> removes repeated solutions
  and \<open>LIMIT 1\<close> keeps the first one. Solutions come in the order of the triples, which
  a real engine does not promise; the theorems stated for every store do not depend on
  it. The queries of the code lists (property paths, counts, \<open>ORDER BY\<close>) are not
  evaluated: \<open>graph_store\<close> has no rows for them, and the theorems on code lists are
  stated for every store.
\<close>

datatype rdf_term = IRI string | BNode string | Literal string

type_synonym triple = "rdf_term \<times> string \<times> rdf_term"

type_synonym dataset = "string \<Rightarrow> triple list"

type_synonym solution = "(string \<times> rdf_term) list"

definition RDFS_DOMAIN :: string where
  "RDFS_DOMAIN = ''http://www.w3.org/2000/01/rdf-schema#domain''"

definition RDFS_RANGE :: string where
  "RDFS_RANGE = ''http://www.w3.org/2000/01/rdf-schema#range''"

definition RDFS_LABEL :: string where
  "RDFS_LABEL = ''http://www.w3.org/2000/01/rdf-schema#label''"

definition RDFS_SUBCLASSOF :: string where
  "RDFS_SUBCLASSOF = ''http://www.w3.org/2000/01/rdf-schema#subClassOf''"

definition RDF_TYPE :: string where
  "RDF_TYPE = ''http://www.w3.org/1999/02/22-rdf-syntax-ns#type''"

definition OWL_ONE_OF :: string where
  "OWL_ONE_OF = ''http://www.w3.org/2002/07/owl#oneOf''"

definition RDF_FIRST :: string where
  "RDF_FIRST = ''http://www.w3.org/1999/02/22-rdf-syntax-ns#first''"

definition RDF_REST :: string where
  "RDF_REST = ''http://www.w3.org/1999/02/22-rdf-syntax-ns#rest''"

definition OWL_CLASS :: string where
  "OWL_CLASS = ''http://www.w3.org/2002/07/owl#Class''"

definition RDFS_CLASS :: string where
  "RDFS_CLASS = ''http://www.w3.org/2000/01/rdf-schema#Class''"

definition OWL_DEPRECATED :: string where
  "OWL_DEPRECATED = ''http://www.w3.org/2002/07/owl#deprecated''"

definition PREFIX_IRI :: string where
  "PREFIX_IRI = ''http://data.bioontology.org/metadata/prefixIRI''"

definition AIT_META_GRAPH :: string where
  "AIT_META_GRAPH = ''urn:ait:meta''"

definition AIT_NS :: string where
  "AIT_NS = ''urn:ait:ontology#''"

text \<open>\<open>Store.query\<close> renders a bound term as a string.\<close>

fun render :: "rdf_term \<Rightarrow> string" where
  "render (IRI u) = u"
| "render (Literal v) = v"
| "render (BNode b) = ''_:'' @ b"

fun is_blank :: "rdf_term \<Rightarrow> bool" where
  "is_blank (BNode b) = True"
| "is_blank t = False"

fun is_iri :: "rdf_term \<Rightarrow> bool" where
  "is_iri (IRI u) = True"
| "is_iri t = False"

definition to_row :: "solution \<Rightarrow> row" where
  "to_row sol = map_of (map (\<lambda>(v, t). (v, render t)) sol)"

definition objects :: "triple list \<Rightarrow> rdf_term \<Rightarrow> string \<Rightarrow> rdf_term list" where
  "objects G s p = map (\<lambda>(s', p', ob). ob) (filter (\<lambda>(s', p', ob). s' = s \<and> p' = p) G)"

definition subjects :: "triple list \<Rightarrow> string \<Rightarrow> rdf_term \<Rightarrow> rdf_term list" where
  "subjects G p ob = map (\<lambda>(s', p', ob'). s') (filter (\<lambda>(s', p', ob'). p' = p \<and> ob' = ob) G)"

definition objects_of :: "triple list \<Rightarrow> string \<Rightarrow> rdf_term list" where
  "objects_of G p = map (\<lambda>(s', p', ob). ob) (filter (\<lambda>(s', p', ob). p' = p) G)"

definition optional :: "string \<Rightarrow> rdf_term list \<Rightarrow> solution list" where
  "optional v ts = (if ts = [] then [[]] else map (\<lambda>t. [(v, t)]) ts)"

definition property_types :: "triple list \<Rightarrow> rdf_term \<Rightarrow> rdf_term list" where
  "property_types G s =
     filter (\<lambda>t. t \<in> {IRI OWL_OBJECT_PROPERTY, IRI OWL_DATATYPE_PROPERTY,
                        IRI OWL_ANNOTATION_PROPERTY})
       (objects G s RDF_TYPE)"

definition optional_with_label ::
    "triple list \<Rightarrow> string \<Rightarrow> string \<Rightarrow> rdf_term list \<Rightarrow> solution list" where
  "optional_with_label G v vl ts =
     (if ts = [] then [[]]
      else concat (map (\<lambda>t. map (\<lambda>l. (v, t) # l) (optional vl (objects G t RDFS_LABEL))) ts))"

definition domain_solutions :: "triple list \<Rightarrow> string \<Rightarrow> solution list" where
  "domain_solutions G class_uri =
     remdups (concat (map (\<lambda>s.
        [(''prop'', s) # l @ t @ rg.
           l \<leftarrow> optional ''propLabel'' (objects G s RDFS_LABEL),
           t \<leftarrow> optional ''propType'' (property_types G s),
           rg \<leftarrow> optional_with_label G ''range'' ''rangeLabel'' (objects G s RDFS_RANGE)])
        (subjects G RDFS_DOMAIN (IRI class_uri))))"

definition range_solutions :: "triple list \<Rightarrow> string \<Rightarrow> solution list" where
  "range_solutions G class_uri =
     remdups (concat (map (\<lambda>s.
        [(''prop'', s) # l @ t @ d.
           l \<leftarrow> optional ''propLabel'' (objects G s RDFS_LABEL),
           t \<leftarrow> optional ''propType'' (property_types G s),
           d \<leftarrow> optional_with_label G ''domain'' ''domainLabel'' (objects G s RDFS_DOMAIN)])
        (subjects G RDFS_RANGE (IRI class_uri))))"

definition parent_solutions :: "triple list \<Rightarrow> string \<Rightarrow> solution list" where
  "parent_solutions G current =
     take 1 [(''parent'', p) # l.
               p \<leftarrow> filter is_iri (objects G (IRI current) RDFS_SUBCLASSOF),
               l \<leftarrow> optional ''parentLabel'' (objects G p RDFS_LABEL)]"

text \<open>The first elements of the \<open>owl:oneOf\<close> lists of the ranges of a property.\<close>

definition oneof_range_heads :: "triple list \<Rightarrow> string \<Rightarrow> rdf_term list" where
  "oneof_range_heads G property_uri =
     [m. rg \<leftarrow> objects G (IRI property_uri) RDFS_RANGE,
         lst \<leftarrow> objects G rg OWL_ONE_OF,
         m \<leftarrow> objects G lst RDF_FIRST]"

definition blank_range_solutions :: "triple list \<Rightarrow> string \<Rightarrow> solution list" where
  "blank_range_solutions G property_uri =
     [(''member'', m) # l.
        m \<leftarrow> filter (\<lambda>m. \<not> is_blank m) (oneof_range_heads G property_uri),
        l \<leftarrow> optional ''memberLabel'' (objects G m RDFS_LABEL)]"

definition class_solutions :: "triple list \<Rightarrow> solution list" where
  "class_solutions G =
     remdups (concat (map (\<lambda>s.
        [(''class'', s) # l @ p @ d @ par.
           l \<leftarrow> optional ''label'' (objects G s RDFS_LABEL),
           p \<leftarrow> optional ''prefixIRI'' (objects G s PREFIX_IRI),
           d \<leftarrow> optional ''deprecated'' (objects G s OWL_DEPRECATED),
           par \<leftarrow> optional ''parent'' (filter is_iri (objects G s RDFS_SUBCLASSOF))])
        (subjects G RDF_TYPE (IRI OWL_CLASS) @ subjects G RDF_TYPE (IRI RDFS_CLASS))))"

text \<open>The three queries of \<open>_get_ontology_config\<close> read the graph \<open>urn:ait:meta\<close>.\<close>

definition config_values :: "dataset \<Rightarrow> string \<Rightarrow> string \<Rightarrow> string \<Rightarrow> solution list" where
  "config_values ds ontology key var =
     map (\<lambda>ob. [(var, ob)]) (objects (ds AIT_META_GRAPH) (IRI ontology) (AIT_NS @ key))"

definition graph_store :: "dataset \<Rightarrow> store" where
  "graph_store ds q =
     map to_row
       (case q of
          HierarchyQuery g \<Rightarrow> class_solutions (ds g)
        | SelectedNamespaceQuery g \<Rightarrow> config_values ds g ''selectedNamespace'' ''namespace''
        | DisplayModeQuery g \<Rightarrow> config_values ds g ''displayNameMode'' ''mode''
        | ShowDeprecatedQuery g \<Rightarrow> config_values ds g ''showDeprecated'' ''show''
        | DomainQuery g c \<Rightarrow> domain_solutions (ds g) c
        | ParentQuery g c \<Rightarrow> parent_solutions (ds g) c
        | RangeQuery g c \<Rightarrow> range_solutions (ds g) c
        | BlankRangeQuery g p \<Rightarrow> blank_range_solutions (ds g) p
        | _ \<Rightarrow> [])"

text \<open>
  The members of an RDF list, by the walk over \<open>rdf:first\<close> and \<open>rdf:rest\<close> that the
  code-list queries of the same module use (\<open>owl:oneOf/rdf:rest*/rdf:first\<close>); the
  number of triples bounds the length of the walk.
\<close>

fun rdf_list_members :: "triple list \<Rightarrow> nat \<Rightarrow> rdf_term \<Rightarrow> rdf_term list" where
  "rdf_list_members G 0 lst = []"
| "rdf_list_members G (Suc k) lst =
     objects G lst RDF_FIRST @ concat (map (rdf_list_members G k) (objects G lst RDF_REST))"

definition oneof_range_members :: "triple list \<Rightarrow> string \<Rightarrow> rdf_term list" where
  "oneof_range_members G property_uri =
     [m. rg \<leftarrow> objects G (IRI property_uri) RDFS_RANGE,
         lst \<leftarrow> objects G rg OWL_ONE_OF,
         m \<leftarrow> rdf_list_members G (length G) lst]"

section \<open>Example graphs\<close>

text \<open>
  A class that is its own superclass; a hierarchy with external and internal classes
  and a stored namespace selection; a graph whose only classes are a blank node and an
  excluded root; a cyclic subclass relation; a class with properties of its own,
  inherited and pointing to it; a property whose range enumerates two values; and the
  answers of a store for a concept scheme with three member rows.
\<close>

text \<open>A node of a class that has no prefix IRI and is not deprecated.\<close>

definition class_node :: "string \<Rightarrow> string \<Rightarrow> string list \<Rightarrow> bool \<Rightarrow> HierarchyNode" where
  "class_node u l ps ext =
     \<lparr>HierarchyNode.uri = u, HierarchyNode.label = l, prefix_iri = None,
      entity_type = ''Class'', parent_uris = ps, is_external = ext, is_deprecated = False\<rparr>"

definition self_loop_graph :: dataset where
  "self_loop_graph g =
     (if g = ''urn:g'' then
        [(IRI ''http://a.org/A'', RDF_TYPE, IRI OWL_CLASS),
         (IRI ''http://a.org/A'', RDFS_SUBCLASSOF, IRI ''http://a.org/A'')]
      else [])"

definition promotion_graph :: dataset where
  "promotion_graph g =
     (if g = ''urn:g'' then
        [(IRI ''http://x.org/X'', RDF_TYPE, IRI OWL_CLASS),
         (IRI ''http://x.org/Y'', RDF_TYPE, IRI OWL_CLASS),
         (IRI ''http://x.org/Y'', RDFS_SUBCLASSOF, IRI ''http://x.org/X''),
         (IRI ''http://x.org/P'', RDF_TYPE, IRI OWL_CLASS),
         (IRI ''http://x.org/P'', RDFS_SUBCLASSOF, IRI ''http://www.w3.org/2002/07/owl#Thing''),
         (IRI ''http://in.org/C'', RDF_TYPE, IRI RDFS_CLASS),
         (IRI ''http://in.org/C'', RDFS_SUBCLASSOF, IRI ''http://x.org/P'')]
      else if g = AIT_META_GRAPH then
        [(IRI ''urn:g'', AIT_NS @ ''selectedNamespace'', Literal ''http://in.org/'')]
      else [])"

definition discarded_graph :: dataset where
  "discarded_graph g =
     (if g = ''urn:g'' then
        [(BNode ''b0'', RDF_TYPE, IRI OWL_CLASS),
         (IRI ''http://www.w3.org/2002/07/owl#Thing'', RDF_TYPE, IRI OWL_CLASS)]
      else [])"

definition cycle_graph :: dataset where
  "cycle_graph g =
     (if g = ''urn:g'' then
        [(IRI ''http://a.org/A'', RDFS_SUBCLASSOF, IRI ''http://a.org/B''),
         (IRI ''http://a.org/B'', RDFS_SUBCLASSOF, IRI ''http://a.org/A'')]
      else [])"

definition inheritance_graph :: dataset where
  "inheritance_graph g =
     (if g = ''urn:g'' then
        [(IRI ''http://e.org/a'', RDFS_DOMAIN, IRI ''http://e.org/C''),
         (IRI ''http://e.org/B'', RDFS_DOMAIN, IRI ''http://e.org/C''),
         (IRI ''http://e.org/C'', RDFS_SUBCLASSOF, IRI ''http://e.org/D''),
         (IRI ''http://e.org/z'', RDFS_DOMAIN, IRI ''http://e.org/D''),
         (IRI ''http://e.org/Y'', RDFS_DOMAIN, IRI ''http://e.org/D''),
         (IRI ''http://e.org/q'', RDFS_RANGE, IRI ''http://e.org/C''),
         (IRI ''http://e.org/R'', RDFS_RANGE, IRI ''http://e.org/C'')]
      else [])"

definition enumerated_range_graph :: dataset where
  "enumerated_range_graph g =
     (if g = ''urn:g'' then
        [(IRI ''http://e.org/hasColour'', RDFS_DOMAIN, IRI ''http://e.org/Car''),
         (IRI ''http://e.org/hasColour'', RDFS_RANGE, BNode ''r''),
         (BNode ''r'', OWL_ONE_OF, BNode ''l1''),
         (BNode ''l1'', RDF_FIRST, IRI ''http://e.org/Red''),
         (BNode ''l1'', RDF_REST, BNode ''l2''),
         (BNode ''l2'', RDF_FIRST, IRI ''http://e.org/Blue''),
         (BNode ''l2'', RDF_REST, IRI ''http://www.w3.org/1999/02/22-rdf-syntax-ns#nil'')]
      else [])"

definition colour_scheme_store :: store where
  "colour_scheme_store q =
     (case q of
        SkosMembersCount g e \<Rightarrow> [[''count'' \<mapsto> ''2'']]
      | OneOfCount g e \<Rightarrow> [[''count'' \<mapsto> ''2'']]
      | SkosSchemeMembers g e \<Rightarrow>
          [[''member'' \<mapsto> ''http://e.org/m1'', ''label'' \<mapsto> ''blue'', ''notation'' \<mapsto> ''1''],
           [''member'' \<mapsto> ''http://e.org/m2'', ''label'' \<mapsto> ''Amber'', ''notation'' \<mapsto> ''2''],
           [''member'' \<mapsto> ''http://e.org/m2'', ''label'' \<mapsto> ''Bernstein'', ''notation'' \<mapsto> ''2'']]
      | _ \<Rightarrow> [])"

text \<open>
  A scheme of three members, two of which have labels that differ in case only.
\<close>

definition shade_scheme_store :: store where
  "shade_scheme_store q =
     (case q of
        SkosMembersCount g e \<Rightarrow> [[''count'' \<mapsto> ''3'']]
      | SkosSchemeMembers g e \<Rightarrow>
          [[''member'' \<mapsto> ''http://e.org/m1'', ''label'' \<mapsto> ''blue'', ''notation'' \<mapsto> ''1''],
           [''member'' \<mapsto> ''http://e.org/m2'', ''label'' \<mapsto> ''Amber'', ''notation'' \<mapsto> ''2''],
           [''member'' \<mapsto> ''http://e.org/m3'', ''label'' \<mapsto> ''Blue'', ''notation'' \<mapsto> ''3'']]
      | _ \<Rightarrow> [])"

section \<open>Properties of the hierarchy builder\<close>

lemma children_of_add_parent:
  "children_of (children_map (add_parent c p st)) q =
     (if q = p then (if c \<in> set (children_of (children_map st) p)
                     then children_of (children_map st) p
                     else children_of (children_map st) p @ [c])
      else children_of (children_map st) q)"
  by (auto simp: add_parent_def children_of_def Let_def map_of_map_entry update_conv'
           split: option.splits)

lemma map_of_nodes_add_parent:
  "map_of (nodes (add_parent c p st)) k =
     (if k = c
      then map_option (\<lambda>n. if p \<notin> set (parent_uris n)
                             then n\<lparr>parent_uris := parent_uris n @ [p]\<rparr> else n)
             (map_of (nodes st) c)
      else map_of (nodes st) k)"
  by (auto simp: add_parent_def Let_def map_of_map_entry split: option.splits)

lemma distinct_nodes_add_parent:
  "distinct (map fst (nodes st)) \<Longrightarrow> distinct (map fst (nodes (add_parent c p st)))"
  by (simp add: add_parent_def Let_def distinct_map_entry)

lemma children_map_with_node [simp]: "children_map (with_node I r c st) = children_map st"
  by (simp add: with_node_def Let_def)

lemma map_of_nodes_with_node:
  "map_of (nodes (with_node I r c st)) k =
     (if k = c \<and> map_of (nodes st) c = None then Some (new_node I r c) else map_of (nodes st) k)"
  by (auto simp: with_node_def Let_def update_conv')

lemma distinct_nodes_with_node:
  "distinct (map fst (nodes st)) \<Longrightarrow> distinct (map fst (nodes (with_node I r c st)))"
  by (simp add: with_node_def Let_def distinct_update)

lemma with_node_inv:
  assumes "build_inv I st" "valid_class c"
  shows "build_inv I (with_node I r c st)"
  using assms
  unfolding build_inv_def
  by (auto simp: map_of_nodes_with_node distinct_nodes_with_node node_ok_def new_node_def
           split: if_splits)

lemma add_parent_inv:
  assumes "build_inv I st" "map_of (nodes st) c \<noteq> None"
    "p \<notin> EXCLUDED_CLASSES" "\<not> startswith p ''_:''"
  shows "build_inv I (add_parent c p st)"
  using assms
  unfolding build_inv_def
  by (auto simp: map_of_nodes_add_parent distinct_nodes_add_parent children_of_add_parent
        node_ok_def split: if_splits)

lemma build_row_inv:
  assumes "build_inv I st" "case r ''class'' of None \<Rightarrow> True | Some c \<Rightarrow> c = [] \<or> valid_class c"
  shows "build_inv I (build_row I r st)"
proof (cases "r ''class''")
  case None
  with assms show ?thesis by (simp add: build_row_def)
next
  case (Some c)
  show ?thesis
  proof (cases "c = []")
    case True
    with Some assms show ?thesis by (simp add: build_row_def)
  next
    case False
    with Some assms have vc: "valid_class c" by simp
    have w: "build_inv I (with_node I r c st)" by (rule with_node_inv[OF assms(1) vc])
    have n: "map_of (nodes (with_node I r c st)) c \<noteq> None"
      by (simp add: map_of_nodes_with_node)
    show ?thesis
      using Some False w add_parent_inv[OF w n]
      by (simp add: build_row_def split: option.splits)
  qed
qed

lemma fold_build_row_inv:
  assumes "\<forall>r \<in> set rows. case r ''class'' of None \<Rightarrow> True | Some c \<Rightarrow> c = [] \<or> valid_class c"
    and "build_inv I st"
  shows "build_inv I (fold (build_row I) rows st)"
  using assms
  by (induction rows arbitrary: st) (simp_all add: build_row_inv)

lemma class_data_valid:
  "\<forall>r \<in> set (class_data store ont). case r ''class'' of None \<Rightarrow> True | Some c \<Rightarrow> c = [] \<or> valid_class c"
  by (auto simp: class_data_def valid_class_def split: option.splits)

lemma build_inv_build: "build_inv I (build I (class_data store ont))"
  unfolding build_def
  by (rule fold_build_row_inv[OF class_data_valid]) (simp add: build_inv_def children_of_def)

lemma dfs_closed:
  "has_internal_descendant I ns cm u V = (False, V') \<Longrightarrow>
     V \<subseteq> V' \<and> u \<in> V' \<and>
     (\<forall>x \<in> V' - V. \<forall>c \<in> set (children_of cm x).
         map_of ns c \<noteq> None \<longrightarrow> is_external_uri I c \<and> c \<in> V')"
  "descend_children I ns cm cs V = (False, V') \<Longrightarrow>
     V \<subseteq> V' \<and>
     (\<forall>c \<in> set cs. map_of ns c \<noteq> None \<longrightarrow> is_external_uri I c \<and> c \<in> V') \<and>
     (\<forall>x \<in> V' - V. \<forall>c \<in> set (children_of cm x).
         map_of ns c \<noteq> None \<longrightarrow> is_external_uri I c \<and> c \<in> V')"
proof (induction I ns cm u V and I ns cm cs V arbitrary: V' and V'
       rule: has_internal_descendant_descend_children.induct)
  case (1 I ns cm u visited)
  show ?case
  proof (cases "u \<in> visited")
    case True
    with 1(2) show ?thesis by (simp add: has_internal_descendant.simps)
  next
    case False
    with 1(2) have d: "descend_children I ns cm (children_of cm u) (insert u visited) = (False, V')"
      by (simp add: has_internal_descendant.simps)
    from 1(1)[OF False d] show ?thesis by blast
  qed
next
  case (2 I ns cm visited)
  then show ?case by simp
next
  case (3 I ns cm child_uri rest visited)
  show ?case
  proof (cases "map_of ns child_uri")
    case None
    with 3(4) have "descend_children I ns cm rest visited = (False, V')" by simp
    from 3(1)[OF None this] None show ?thesis by auto
  next
    case (Some child)
    from 3(4) Some have ext: "is_external_uri I child_uri" by (auto split: if_splits)
    obtain b V1 where r: "has_internal_descendant I ns cm child_uri visited = (b, V1)"
      by (cases "has_internal_descendant I ns cm child_uri visited")
    from 3(4) Some ext r have b: "b = False" by (auto split: if_splits)
    from 3(4) Some ext r b have d: "descend_children I ns cm rest V1 = (False, V')" by simp
    have ih1: "visited \<subseteq> V1 \<and> child_uri \<in> V1 \<and>
      (\<forall>x \<in> V1 - visited. \<forall>c \<in> set (children_of cm x).
         map_of ns c \<noteq> None \<longrightarrow> is_external_uri I c \<and> c \<in> V1)"
      by (rule 3(2)[OF Some _ r[unfolded b]]) (simp add: ext)
    have ih2: "V1 \<subseteq> V' \<and>
      (\<forall>c \<in> set rest. map_of ns c \<noteq> None \<longrightarrow> is_external_uri I c \<and> c \<in> V') \<and>
      (\<forall>x \<in> V' - V1. \<forall>c \<in> set (children_of cm x).
         map_of ns c \<noteq> None \<longrightarrow> is_external_uri I c \<and> c \<in> V')"
      by (rule 3(3)[OF Some _ r[symmetric, unfolded b] refl d]) (simp add: ext)
    from ih1 ih2 ext show ?thesis by (simp add: subset_iff) blast
  qed
qed

lemma dfs_complete:
  assumes r: "has_internal_descendant I ns cm u {} = (False, V')"
    and nodes: "\<forall>p c. c \<in> set (children_of cm p) \<longrightarrow> map_of ns c \<noteq> None"
    and path: "(u, c) \<in> (child_edges cm)\<^sup>+"
  shows "is_external_uri I c"
proof -
  from dfs_closed(1)[OF r] nodes
  have u: "u \<in> V'"
    and cl: "\<And>x c. x \<in> V' \<Longrightarrow> c \<in> set (children_of cm x) \<Longrightarrow> is_external_uri I c \<and> c \<in> V'"
    by auto
  from path have "is_external_uri I c \<and> c \<in> V'"
  proof (induction rule: trancl_induct)
    case (base y)
    with u cl show ?case by (auto simp: child_edges_def)
  next
    case (step y z)
    with cl show ?case by (auto simp: child_edges_def)
  qed
  then show ?thesis ..
qed

lemma hierarchy_output:
  assumes "n \<in> set (get_class_hierarchy d store ont)"
  shows "\<exists>k n0. map_of (nodes (hierarchy_state d store ont)) k = Some n0 \<and>
           (if is_external n0 \<and>
               fst (has_internal_descendant (internal_namespaces d store ont)
                      (nodes (hierarchy_state d store ont))
                      (children_map (hierarchy_state d store ont)) k {})
            then n = n0\<lparr>is_external := False\<rparr> else n = n0)"
proof -
  let ?I = "internal_namespaces d store ont"
  let ?st = "hierarchy_state d store ont"
  from assms have "n \<in> snd ` set (promote ?I ?st)"
    by (auto simp: get_class_hierarchy_def Let_def split: if_splits)
  then obtain k n0 where kn: "(k, n0) \<in> set (nodes ?st)"
    and n: "n = (if is_external n0
                 then (if fst (has_internal_descendant ?I (nodes ?st) (children_map ?st) k {})
                       then n0\<lparr>is_external := False\<rparr> else n0)
                 else n0)"
    by (auto simp: promote_def)
  have "distinct (map fst (nodes ?st))"
    using build_inv_build[of ?I store ont] by (simp add: build_inv_def hierarchy_state_def)
  with kn have "map_of (nodes ?st) k = Some n0" by simp
  with n show ?thesis by (intro exI[of _ k] exI[of _ n0]) auto
qed

lemma hierarchy_output_node:
  assumes "n \<in> set (get_class_hierarchy d store ont)"
  shows "\<exists>n0. map_of (nodes (hierarchy_state d store ont)) (HierarchyNode.uri n) = Some n0 \<and>
     node_ok (internal_namespaces d store ont) (HierarchyNode.uri n) n0 \<and>
     parent_uris n = parent_uris n0 \<and>
     (is_external n \<longrightarrow> is_external n0 \<and>
           \<not> fst (has_internal_descendant (internal_namespaces d store ont)
                  (nodes (hierarchy_state d store ont))
                  (children_map (hierarchy_state d store ont)) (HierarchyNode.uri n) {}))"
proof -
  from hierarchy_output[OF assms] obtain k n0 where
    m: "map_of (nodes (hierarchy_state d store ont)) k = Some n0" and
    c: "if is_external n0 \<and>
               fst (has_internal_descendant (internal_namespaces d store ont)
                      (nodes (hierarchy_state d store ont))
                      (children_map (hierarchy_state d store ont)) k {})
            then n = n0\<lparr>is_external := False\<rparr> else n = n0"
    by blast
  from m build_inv_build[of "internal_namespaces d store ont" store ont]
  have ok: "node_ok (internal_namespaces d store ont) k n0"
    by (simp add: build_inv_def hierarchy_state_def)
  then have k: "HierarchyNode.uri n0 = k" by (simp add: node_ok_def)
  from c k have u: "HierarchyNode.uri n = k" by (auto split: if_splits)
  show ?thesis
    by (rule exI[of _ n0]) (use m ok c u in \<open>auto split: if_splits\<close>)
qed

lemma children_mono_row:
  "c \<in> set (children_of (children_map st) p) \<Longrightarrow>
   c \<in> set (children_of (children_map (build_row I r st)) p)"
  by (auto simp: build_row_def children_of_add_parent split: option.splits)

lemma children_mono_fold:
  "c \<in> set (children_of (children_map st) p) \<Longrightarrow>
   c \<in> set (children_of (children_map (fold (build_row I) rows st)) p)"
  by (induction rows arbitrary: st) (simp_all add: children_mono_row)

lemma parent_mono_row:
  "has_parent (nodes st) c p \<Longrightarrow> has_parent (nodes (build_row I r st)) c p"
  by (auto simp: has_parent_def build_row_def map_of_nodes_add_parent map_of_nodes_with_node
           split: option.splits)

lemma parent_mono_fold:
  "has_parent (nodes st) c p \<Longrightarrow> has_parent (nodes (fold (build_row I) rows st)) c p"
  by (induction rows arbitrary: st) (simp_all add: parent_mono_row)

lemma edge_row:
  assumes "r ''class'' = Some c" "c \<noteq> []" "r ''parent'' = Some p" "p \<noteq> []"
    "p \<notin> EXCLUDED_CLASSES" "\<not> startswith p ''_:''"
  shows "c \<in> set (children_of (children_map (build_row I r st)) p) \<and>
         has_parent (nodes (build_row I r st)) c p"
  using assms
  by (auto simp: has_parent_def build_row_def children_of_add_parent map_of_nodes_add_parent
        map_of_nodes_with_node split: option.splits)

lemma edge_fold:
  assumes "r \<in> set rows" "r ''class'' = Some c" "c \<noteq> []" "r ''parent'' = Some p" "p \<noteq> []"
    "p \<notin> EXCLUDED_CLASSES" "\<not> startswith p ''_:''"
  shows "c \<in> set (children_of (children_map (fold (build_row I) rows st)) p) \<and>
         has_parent (nodes (fold (build_row I) rows st)) c p"
  using assms(1)
proof (induction rows arbitrary: st)
  case Nil
  then show ?case by simp
next
  case (Cons x rows)
  show ?case
  proof (cases "x = r")
    case True
    from edge_row[OF assms(2-7), of I st] True
    show ?thesis by (simp add: children_mono_fold parent_mono_fold)
  next
    case False
    with Cons.prems have "r \<in> set rows" by simp
    from Cons.IH[OF this] show ?thesis by simp
  qed
qed

lemma class_data_row_valid:
  "r \<in> set (class_data store ont) \<Longrightarrow> r ''class'' = Some c \<Longrightarrow> valid_class c"
  by (auto simp: class_data_def valid_class_def)

lemma class_node_fields [simp]:
  "HierarchyNode.uri (class_node u l ps ext) = u"
  "parent_uris (class_node u l ps ext) = ps"
  "is_external (class_node u l ps ext) = ext"
  by (simp_all add: class_node_def)

lemma self_loop_run:
  "get_class_hierarchy (\<lambda>_. {}) (graph_store self_loop_graph) ''urn:g'' =
     [(class_node ''http://a.org/A'' ''A'' [''http://a.org/A''] True)]"
  by code_simp

lemma promotion_run:
  "get_class_hierarchy (\<lambda>_. {}) (graph_store promotion_graph) ''urn:g'' =
     [(class_node ''http://in.org/C'' ''C'' [''http://x.org/P''] False),
      (class_node ''http://x.org/P'' ''P'' [] False),
      (class_node ''http://x.org/X'' ''X'' [] True),
      (class_node ''http://x.org/Y'' ''Y'' [''http://x.org/X''] True)]"
  by code_simp

lemma promotion_children:
  "children_of (children_map (hierarchy_state (\<lambda>_. {}) (graph_store promotion_graph) ''urn:g''))
     ''http://x.org/X'' = [''http://x.org/Y'']"
  by code_simp

lemma promotion_internal:
  "internal_namespaces (\<lambda>_. {}) (graph_store promotion_graph) ''urn:g'' = {''http://in.org/''}"
  by code_simp

lemma promotion_row:
  "to_row [(''class'', IRI ''http://in.org/C''), (''parent'', IRI ''http://x.org/P'')]
     \<in> set (class_data (graph_store promotion_graph) ''urn:g'')"
proof -
  have "graph_store promotion_graph (HierarchyQuery ''urn:g'') =
     map to_row
       [[(''class'', IRI ''http://x.org/X'')],
        [(''class'', IRI ''http://x.org/Y''), (''parent'', IRI ''http://x.org/X'')],
        [(''class'', IRI ''http://x.org/P''),
         (''parent'', IRI ''http://www.w3.org/2002/07/owl#Thing'')],
        [(''class'', IRI ''http://in.org/C''), (''parent'', IRI ''http://x.org/P'')]]"
    unfolding graph_store_def query.case
    by (rule arg_cong[where f = "map to_row"]) code_simp
  then show ?thesis
    unfolding class_data_def
    by (simp add: to_row_def startswith_def EXCLUDED_CLASSES_def)
qed

lemma optional_nonempty: "optional v ts \<noteq> []"
  by (simp add: optional_def)

lemma optional_cases: "l \<in> set (optional v ts) \<Longrightarrow> l = [] \<or> (\<exists>t. l = [(v, t)])"
  by (auto simp: optional_def split: if_splits)

lemma optional_member: "t \<in> set ts \<Longrightarrow> [(v, t)] \<in> set (optional v ts)"
  by (auto simp: optional_def)

lemma class_row_of_triples:
  assumes c: "(IRI c, RDF_TYPE, IRI OWL_CLASS) \<in> set G \<or> (IRI c, RDF_TYPE, IRI RDFS_CLASS) \<in> set G"
    and p: "(IRI c, RDFS_SUBCLASSOF, IRI p) \<in> set G"
  shows "\<exists>sol \<in> set (class_solutions G).
           to_row sol ''class'' = Some c \<and> to_row sol ''parent'' = Some p"
proof -
  let ?s = "IRI c"
  from c have s: "?s \<in> set (subjects G RDF_TYPE (IRI OWL_CLASS) @ subjects G RDF_TYPE (IRI RDFS_CLASS))"
    by (force simp: subjects_def)
  obtain l where l: "l \<in> set (optional ''label'' (objects G ?s RDFS_LABEL))"
    using optional_nonempty[of "''label''" "objects G ?s RDFS_LABEL"]
    by (cases "optional ''label'' (objects G ?s RDFS_LABEL)") auto
  obtain x where x: "x \<in> set (optional ''prefixIRI'' (objects G ?s PREFIX_IRI))"
    using optional_nonempty[of "''prefixIRI''" "objects G ?s PREFIX_IRI"]
    by (cases "optional ''prefixIRI'' (objects G ?s PREFIX_IRI)") auto
  obtain d where d: "d \<in> set (optional ''deprecated'' (objects G ?s OWL_DEPRECATED))"
    using optional_nonempty[of "''deprecated''" "objects G ?s OWL_DEPRECATED"]
    by (cases "optional ''deprecated'' (objects G ?s OWL_DEPRECATED)") auto
  from p have "IRI p \<in> set (filter is_iri (objects G ?s RDFS_SUBCLASSOF))"
    by (force simp: objects_def)
  then have par: "[(''parent'', IRI p)]
      \<in> set (optional ''parent'' (filter is_iri (objects G ?s RDFS_SUBCLASSOF)))"
    by (rule optional_member)
  let ?sol = "(''class'', ?s) # l @ x @ d @ [(''parent'', IRI p)]"
  define F where "F = (\<lambda>s. [(''class'', s) # a @ b @ e @ f.
           a \<leftarrow> optional ''label'' (objects G s RDFS_LABEL),
           b \<leftarrow> optional ''prefixIRI'' (objects G s PREFIX_IRI),
           e \<leftarrow> optional ''deprecated'' (objects G s OWL_DEPRECATED),
           f \<leftarrow> optional ''parent'' (filter is_iri (objects G s RDFS_SUBCLASSOF))])"
  have inner: "?sol \<in> set (F ?s)"
    unfolding F_def using l x d par by fastforce
  have "class_solutions G =
      remdups (concat (map F (subjects G RDF_TYPE (IRI OWL_CLASS) @
                              subjects G RDF_TYPE (IRI RDFS_CLASS))))"
    by (simp add: class_solutions_def F_def)
  with inner s have "?sol \<in> set (class_solutions G)"
    by (simp del: map_append) blast
  moreover have "to_row ?sol ''class'' = Some c" by (simp add: to_row_def)
  moreover have "to_row ?sol ''parent'' = Some p"
    using optional_cases[OF l] optional_cases[OF x] optional_cases[OF d]
    by (auto simp: to_row_def)
  ultimately show ?thesis by blast
qed

lemma class_data_of_triples:
  assumes "(IRI c, RDF_TYPE, IRI OWL_CLASS) \<in> set (ds g) \<or>
           (IRI c, RDF_TYPE, IRI RDFS_CLASS) \<in> set (ds g)"
    and "(IRI c, RDFS_SUBCLASSOF, IRI p) \<in> set (ds g)"
    and "valid_class c"
  shows "\<exists>r \<in> set (class_data (graph_store ds) g). r ''class'' = Some c \<and> r ''parent'' = Some p"
proof -
  from class_row_of_triples[OF assms(1,2)] obtain sol where
    "sol \<in> set (class_solutions (ds g))" "to_row sol ''class'' = Some c"
    "to_row sol ''parent'' = Some p"
    by blast
  with assms(3) have "to_row sol \<in> set (class_data (graph_store ds) g)"
    by (simp add: class_data_def graph_store_def valid_class_def)
  with \<open>to_row sol ''class'' = Some c\<close> \<open>to_row sol ''parent'' = Some p\<close>
  show ?thesis by blast
qed

lemma output_uri_valid:
  assumes "n \<in> set (get_class_hierarchy d store ont)"
  shows "valid_class (HierarchyNode.uri n)"
  using hierarchy_output_node[OF assms] by (auto simp: node_ok_def)

text \<open>
  C7. No node of the hierarchy lists an excluded root or a blank node among its parents,
  whatever rows the class query returned.
\<close>

theorem excluded_roots_never_parents:
  "\<forall>n \<in> set (get_class_hierarchy d store ont).
     \<forall>p \<in> set (parent_uris n). p \<notin> EXCLUDED_CLASSES \<and> \<not> startswith p ''_:''"
proof (intro ballI)
  fix n p
  assume n: "n \<in> set (get_class_hierarchy d store ont)" and p: "p \<in> set (parent_uris n)"
  from n obtain n0 where "node_ok (internal_namespaces d store ont) (HierarchyNode.uri n) n0"
    and "parent_uris n = parent_uris n0"
    using hierarchy_output_node by blast
  with p show "p \<notin> EXCLUDED_CLASSES \<and> \<not> startswith p ''_:''"
    by (simp add: node_ok_def)
qed

theorem excluded_roots_never_parents_witness:
  "map parent_uris (get_class_hierarchy (\<lambda>_. {}) (graph_store promotion_graph) ''urn:g'') =
     [[''http://x.org/P''], [], [], [''http://x.org/X'']] \<and>
   ''http://x.org/P'' \<notin> EXCLUDED_CLASSES \<and> \<not> startswith ''http://x.org/P'' ''_:''"
proof -
  have "(class_node ''http://in.org/C'' ''C'' [''http://x.org/P''] False)
        \<in> set (get_class_hierarchy (\<lambda>_. {}) (graph_store promotion_graph) ''urn:g'')"
    by (simp add: promotion_run)
  from excluded_roots_never_parents[rule_format, OF this, of "''http://x.org/P''"]
  show ?thesis by (simp add: promotion_run)
qed

text \<open>
  C1. A class with the edge \<open>A subClassOf A\<close> must not list itself as a parent. The
  hierarchy builder does not meet this: its loop drops a parent that is an excluded root
  or a blank node and never compares the parent with the class, where the sibling
  \<open>get_ontology_graph\<close> skips an edge with \<open>parent != class_uri\<close>. On the graph with
  the two triples \<open>A a owl:Class\<close> and \<open>A subClassOf A\<close> the hierarchy is the single
  node of \<open>A\<close>, and its parents are \<open>[A]\<close>.
\<close>

theorem self_loop_listed_as_parent:
  "map HierarchyNode.uri (get_class_hierarchy (\<lambda>_. {}) (graph_store self_loop_graph) ''urn:g'') = [''http://a.org/A''] \<and>
   map parent_uris (get_class_hierarchy (\<lambda>_. {}) (graph_store self_loop_graph) ''urn:g'') =
     [[''http://a.org/A'']]"
  by (simp add: self_loop_run)

lemma external_has_external_descendants:
  assumes n: "n \<in> set (get_class_hierarchy d store ont)" and e: "is_external n"
    and p: "(HierarchyNode.uri n, c)
              \<in> (child_edges (children_map (hierarchy_state d store ont)))\<^sup>+"
  shows "is_external_uri (internal_namespaces d store ont) c"
proof -
  let ?I = "internal_namespaces d store ont"
  let ?st = "hierarchy_state d store ont"
  have inv: "build_inv ?I ?st"
    unfolding hierarchy_state_def by (rule build_inv_build)
  from hierarchy_output_node[OF n] e
  have "\<not> fst (has_internal_descendant ?I (nodes ?st) (children_map ?st)
                (HierarchyNode.uri n) {})"
    by auto
  then have r: "has_internal_descendant ?I (nodes ?st) (children_map ?st)
                  (HierarchyNode.uri n) {} =
      (False, snd (has_internal_descendant ?I (nodes ?st) (children_map ?st)
                     (HierarchyNode.uri n) {}))"
    by (simp add: prod_eq_iff)
  from inv have "\<forall>p c. c \<in> set (children_of (children_map ?st) p) \<longrightarrow>
      map_of (nodes ?st) c \<noteq> None"
    unfolding build_inv_def by blast
  from dfs_complete[OF r this p] show ?thesis .
qed

lemma internal_child_promotes:
  assumes n: "n \<in> set (get_class_hierarchy d store ont)"
    and r: "r \<in> set (class_data store ont)"
    and c: "r ''class'' = Some c" and p: "r ''parent'' = Some (HierarchyNode.uri n)"
    and i: "\<not> is_external_uri (internal_namespaces d store ont) c"
  shows "\<not> is_external n"
proof
  assume e: "is_external n"
  from output_uri_valid[OF n]
  have v: "HierarchyNode.uri n \<noteq> []" "HierarchyNode.uri n \<notin> EXCLUDED_CLASSES"
    "\<not> startswith (HierarchyNode.uri n) ''_:''"
    by (simp_all add: valid_class_def)
  from class_data_row_valid[OF r c] have "c \<noteq> []" by (simp add: valid_class_def)
  from edge_fold[OF r c this p v]
  have "c \<in> set (children_of (children_map (hierarchy_state d store ont))
                   (HierarchyNode.uri n))"
    by (simp add: hierarchy_state_def build_def)
  then have "(HierarchyNode.uri n, c)
      \<in> (child_edges (children_map (hierarchy_state d store ont)))\<^sup>+"
    by (simp add: child_edges_def r_into_trancl)
  from external_has_external_descendants[OF n e this] i show False by simp
qed

text \<open>
  C5. A node that is still external in the output has no internal class below it in the
  children map. In particular a node that is the parent in a kept row whose class is
  internal is not external; so for a graph with the edge \<open>Child subClassOf Parent\<close>,
  where \<open>Child\<close> is a declared class that is kept and internal, the node of \<open>Parent\<close>
  is not external.
\<close>

theorem ancestor_promotion:
  "(\<forall>n \<in> set (get_class_hierarchy d store ont). is_external n \<longrightarrow>
      (\<forall>c. (HierarchyNode.uri n, c)
              \<in> (child_edges (children_map (hierarchy_state d store ont)))\<^sup>+ \<longrightarrow>
           is_external_uri (internal_namespaces d store ont) c)) \<and>
   (\<forall>n \<in> set (get_class_hierarchy d store ont). \<forall>r \<in> set (class_data store ont). \<forall>c.
      r ''class'' = Some c \<and> r ''parent'' = Some (HierarchyNode.uri n) \<and>
      \<not> is_external_uri (internal_namespaces d store ont) c \<longrightarrow> \<not> is_external n) \<and>
   (\<forall>n \<in> set (get_class_hierarchy d (graph_store ds) ont). \<forall>c.
      ((IRI c, RDF_TYPE, IRI OWL_CLASS) \<in> set (ds ont) \<or>
       (IRI c, RDF_TYPE, IRI RDFS_CLASS) \<in> set (ds ont)) \<and>
      (IRI c, RDFS_SUBCLASSOF, IRI (HierarchyNode.uri n)) \<in> set (ds ont) \<and>
      valid_class c \<and>
      \<not> is_external_uri (internal_namespaces d (graph_store ds) ont) c \<longrightarrow> \<not> is_external n)"
proof -
  have triples: "\<not> is_external n"
    if n: "n \<in> set (get_class_hierarchy d (graph_store ds) ont)"
      and t: "(IRI c, RDF_TYPE, IRI OWL_CLASS) \<in> set (ds ont) \<or>
              (IRI c, RDF_TYPE, IRI RDFS_CLASS) \<in> set (ds ont)"
      and e: "(IRI c, RDFS_SUBCLASSOF, IRI (HierarchyNode.uri n)) \<in> set (ds ont)"
      and v: "valid_class c"
      and i: "\<not> is_external_uri (internal_namespaces d (graph_store ds) ont) c"
    for n c
  proof -
    from class_data_of_triples[where ds = ds and g = ont, OF t e v] obtain r where
      "r \<in> set (class_data (graph_store ds) ont)" "r ''class'' = Some c"
      "r ''parent'' = Some (HierarchyNode.uri n)"
      by blast
    from internal_child_promotes[OF n this i] show ?thesis .
  qed
  from external_has_external_descendants[where d = d and store = store and ont = ont]
    internal_child_promotes[where d = d and store = store and ont = ont] triples
  show ?thesis by blast
qed

theorem ancestor_promotion_witness:
  "get_class_hierarchy (\<lambda>_. {}) (graph_store promotion_graph) ''urn:g'' =
     [(class_node ''http://in.org/C'' ''C'' [''http://x.org/P''] False),
      (class_node ''http://x.org/P'' ''P'' [] False),
      (class_node ''http://x.org/X'' ''X'' [] True),
      (class_node ''http://x.org/Y'' ''Y'' [''http://x.org/X''] True)] \<and>
   (''http://x.org/X'', ''http://x.org/Y'')
     \<in> (child_edges (children_map (hierarchy_state (\<lambda>_. {}) (graph_store promotion_graph) ''urn:g'')))\<^sup>+ \<and>
   is_external_uri (internal_namespaces (\<lambda>_. {}) (graph_store promotion_graph) ''urn:g'') ''http://x.org/Y'' \<and>
   to_row [(''class'', IRI ''http://in.org/C''), (''parent'', IRI ''http://x.org/P'')]
     \<in> set (class_data (graph_store promotion_graph) ''urn:g'') \<and>
   \<not> is_external_uri (internal_namespaces (\<lambda>_. {}) (graph_store promotion_graph) ''urn:g'') ''http://in.org/C'' \<and>
   \<not> is_external
     (class_node ''http://x.org/P'' ''P'' [] False)"
proof -
  let ?X = "(class_node ''http://x.org/X'' ''X'' [] True)"
  let ?P = "(class_node ''http://x.org/P'' ''P'' [] False)"
  let ?r = "to_row [(''class'', IRI ''http://in.org/C''), (''parent'', IRI ''http://x.org/P'')]"
  have x: "?X \<in> set (get_class_hierarchy (\<lambda>_. {}) (graph_store promotion_graph) ''urn:g'')"
    and p: "?P \<in> set (get_class_hierarchy (\<lambda>_. {}) (graph_store promotion_graph) ''urn:g'')"
    by (simp_all add: promotion_run)
  have e: "(HierarchyNode.uri ?X, ''http://x.org/Y'')
     \<in> (child_edges (children_map (hierarchy_state (\<lambda>_. {}) (graph_store promotion_graph) ''urn:g'')))\<^sup>+"
    by (rule r_into_trancl) (simp add: child_edges_def promotion_children)
  have r: "?r \<in> set (class_data (graph_store promotion_graph) ''urn:g'')"
    by (rule promotion_row)
  have f: "?r ''class'' = Some ''http://in.org/C''" "?r ''parent'' = Some (HierarchyNode.uri ?P)"
    by (simp_all add: to_row_def)
  have i: "\<not> is_external_uri (internal_namespaces (\<lambda>_. {}) (graph_store promotion_graph) ''urn:g'')
              ''http://in.org/C''"
    by (simp add: promotion_internal is_external_uri_def extract_namespace_def rfind_def)
  from ancestor_promotion[of "\<lambda>_. {}" "graph_store promotion_graph" "''urn:g''", THEN conjunct1, rule_format, OF x _ e]
  have a: "is_external_uri (internal_namespaces (\<lambda>_. {}) (graph_store promotion_graph) ''urn:g'')
             ''http://x.org/Y''"
    by simp
  from ancestor_promotion[of "\<lambda>_. {}" "graph_store promotion_graph" "''urn:g''", THEN conjunct2, THEN conjunct1, rule_format, OF p r, of "''http://in.org/C''"] i f
  have b: "\<not> is_external ?P" by simp
  have t: "((IRI ''http://in.org/C'', RDF_TYPE, IRI OWL_CLASS) \<in> set (promotion_graph ''urn:g'') \<or>
            (IRI ''http://in.org/C'', RDF_TYPE, IRI RDFS_CLASS) \<in> set (promotion_graph ''urn:g'')) \<and>
           (IRI ''http://in.org/C'', RDFS_SUBCLASSOF, IRI (HierarchyNode.uri ?P))
             \<in> set (promotion_graph ''urn:g'') \<and>
           valid_class ''http://in.org/C'' \<and>
           \<not> is_external_uri (internal_namespaces (\<lambda>_. {}) (graph_store promotion_graph) ''urn:g'')
              ''http://in.org/C''"
    using i by (simp add: promotion_graph_def valid_class_def startswith_def EXCLUDED_CLASSES_def)
  from ancestor_promotion[of "\<lambda>_. {}" "graph_store promotion_graph" "''urn:g''" promotion_graph,
      THEN conjunct2, THEN conjunct2, rule_format, OF p t]
  have c: "\<not> is_external ?P" .
  from a b c e r i show ?thesis by (simp add: promotion_run)
qed

text \<open>
  C9. When the class query returns no rows, or only rows that are discarded, the
  hierarchy is the empty list; this is the case for a graph that has no triples (a graph
  that does not exist) and for a graph that declares no class. The function has no
  failing branch.
\<close>

theorem no_classes_empty_hierarchy:
  "(store (HierarchyQuery ont) = [] \<longrightarrow> get_class_hierarchy d store ont = []) \<and>
   (class_data store ont = [] \<longrightarrow> get_class_hierarchy d store ont = []) \<and>
   (ds ont = [] \<longrightarrow> get_class_hierarchy d (graph_store ds) ont = []) \<and>
   (IRI OWL_CLASS \<notin> set (objects_of (ds ont) RDF_TYPE) \<and>
    IRI RDFS_CLASS \<notin> set (objects_of (ds ont) RDF_TYPE) \<longrightarrow>
      get_class_hierarchy d (graph_store ds) ont = [])"
proof -
  have empty: "get_class_hierarchy d store ont = []" if "class_data store ont = []"
    for store :: store
    using that
    by (simp add: get_class_hierarchy_def hierarchy_state_def build_def promote_def Let_def)
  have rows: "class_data store ont = []" if "store (HierarchyQuery ont) = []"
    for store :: store
    using that by (simp add: class_data_def)
  have none: "graph_store ds (HierarchyQuery ont) = []"
    if "IRI OWL_CLASS \<notin> set (objects_of (ds ont) RDF_TYPE)"
      and "IRI RDFS_CLASS \<notin> set (objects_of (ds ont) RDF_TYPE)"
  proof -
    have "subjects (ds ont) RDF_TYPE ob = []" if "ob \<notin> set (objects_of (ds ont) RDF_TYPE)" for ob
      using that by (force simp: subjects_def objects_of_def filter_empty_conv)
    with that show ?thesis by (simp add: graph_store_def class_solutions_def)
  qed
  have "graph_store ds (HierarchyQuery ont) = []" if "ds ont = []"
    using that by (simp add: graph_store_def class_solutions_def subjects_def)
  with empty rows none show ?thesis by blast
qed

theorem no_classes_empty_hierarchy_witness:
  "self_loop_graph ''urn:missing'' = [] \<and>
   get_class_hierarchy (\<lambda>_. {}) (graph_store self_loop_graph) ''urn:missing'' = [] \<and>
   IRI OWL_CLASS \<notin> set (objects_of (inheritance_graph ''urn:g'') RDF_TYPE) \<and>
   IRI RDFS_CLASS \<notin> set (objects_of (inheritance_graph ''urn:g'') RDF_TYPE) \<and>
   get_class_hierarchy (\<lambda>_. {}) (graph_store inheritance_graph) ''urn:g'' = [] \<and>
   length (graph_store discarded_graph (HierarchyQuery ''urn:g'')) = 2 \<and>
   class_data (graph_store discarded_graph) ''urn:g'' = [] \<and>
   get_class_hierarchy (\<lambda>_. {}) (graph_store discarded_graph) ''urn:g'' = []"
proof -
  have a: "self_loop_graph ''urn:missing'' = []"
    by (simp add: self_loop_graph_def)
  have b: "IRI OWL_CLASS \<notin> set (objects_of (inheritance_graph ''urn:g'') RDF_TYPE)"
    "IRI RDFS_CLASS \<notin> set (objects_of (inheritance_graph ''urn:g'') RDF_TYPE)"
    by code_simp+
  have c: "graph_store discarded_graph (HierarchyQuery ''urn:g'') =
      map to_row [[(''class'', BNode ''b0'')],
                  [(''class'', IRI ''http://www.w3.org/2002/07/owl#Thing'')]]"
    unfolding graph_store_def query.case
    by (rule arg_cong[where f = "map to_row"]) code_simp
  have e: "class_data (graph_store discarded_graph) ''urn:g'' = []"
    unfolding class_data_def c
    by (simp add: to_row_def startswith_def EXCLUDED_CLASSES_def)
  from no_classes_empty_hierarchy[of "graph_store self_loop_graph" "''urn:missing''" "\<lambda>_. {}"
      self_loop_graph]
    no_classes_empty_hierarchy[of "graph_store inheritance_graph" "''urn:g''" "\<lambda>_. {}" inheritance_graph]
    no_classes_empty_hierarchy[of "graph_store discarded_graph" "''urn:g''" "\<lambda>_. {}"
      discarded_graph]
    a b c e
  show ?thesis by simp
qed

text \<open>
  C10. A node whose namespace is internal is never external in the output, and the
  promotion pass keeps every node and its fields, changing \<open>is_external\<close> from true to
  false at most.
\<close>

theorem internal_never_external:
  "(\<forall>n \<in> set (get_class_hierarchy d store ont).
      \<not> is_external_uri (internal_namespaces d store ont) (HierarchyNode.uri n) \<longrightarrow> \<not> is_external n) \<and>
   list_all2 (\<lambda>a b. fst b = fst a \<and> snd b = (snd a)\<lparr>is_external := is_external (snd b)\<rparr> \<and>
                    (is_external (snd b) \<longrightarrow> is_external (snd a)))
     (nodes st) (promote I st)"
proof
  show "\<forall>n \<in> set (get_class_hierarchy d store ont).
      \<not> is_external_uri (internal_namespaces d store ont) (HierarchyNode.uri n) \<longrightarrow> \<not> is_external n"
  proof (intro ballI impI)
    fix n
    assume n: "n \<in> set (get_class_hierarchy d store ont)"
      and i: "\<not> is_external_uri (internal_namespaces d store ont) (HierarchyNode.uri n)"
    from hierarchy_output_node[OF n] i show "\<not> is_external n"
      by (auto simp: node_ok_def)
  qed
next
  show "list_all2 (\<lambda>a b. fst b = fst a \<and> snd b = (snd a)\<lparr>is_external := is_external (snd b)\<rparr> \<and>
                    (is_external (snd b) \<longrightarrow> is_external (snd a)))
     (nodes st) (promote I st)"
    unfolding promote_def list_all2_map2
    by (rule list_all2_all_nthI) (auto split: prod.splits)
qed

theorem internal_never_external_witness:
  "\<not> is_external_uri (internal_namespaces (\<lambda>_. {}) (graph_store promotion_graph) ''urn:g'') ''http://in.org/C'' \<and>
   \<not> is_external
     (class_node ''http://in.org/C'' ''C'' [''http://x.org/P''] False) \<and>
   map (\<lambda>a. (fst a, is_external (snd a))) (nodes (hierarchy_state (\<lambda>_. {}) (graph_store promotion_graph) ''urn:g'')) =
     [(''http://x.org/X'', True), (''http://x.org/Y'', True), (''http://x.org/P'', True),
      (''http://in.org/C'', False)] \<and>
   map (\<lambda>a. (fst a, is_external (snd a)))
     (promote (internal_namespaces (\<lambda>_. {}) (graph_store promotion_graph) ''urn:g'')
        (hierarchy_state (\<lambda>_. {}) (graph_store promotion_graph) ''urn:g'')) =
     [(''http://x.org/X'', True), (''http://x.org/Y'', True), (''http://x.org/P'', False),
      (''http://in.org/C'', False)]"
proof -
  let ?C = "(class_node ''http://in.org/C'' ''C'' [''http://x.org/P''] False)"
  have c: "?C \<in> set (get_class_hierarchy (\<lambda>_. {}) (graph_store promotion_graph) ''urn:g'')"
    by (simp add: promotion_run)
  have i: "\<not> is_external_uri (internal_namespaces (\<lambda>_. {}) (graph_store promotion_graph) ''urn:g'')
              (HierarchyNode.uri ?C)"
    by (simp add: promotion_internal is_external_uri_def extract_namespace_def rfind_def)
  from internal_never_external[of "\<lambda>_. {}" "graph_store promotion_graph" "''urn:g''", THEN conjunct1,
      rule_format, OF c i]
  have "\<not> is_external ?C" .
  moreover have "map (\<lambda>a. (fst a, is_external (snd a))) (nodes (hierarchy_state (\<lambda>_. {}) (graph_store promotion_graph) ''urn:g'')) =
     [(''http://x.org/X'', True), (''http://x.org/Y'', True), (''http://x.org/P'', True),
      (''http://in.org/C'', False)]"
    by code_simp
  moreover have "map (\<lambda>a. (fst a, is_external (snd a)))
     (promote (internal_namespaces (\<lambda>_. {}) (graph_store promotion_graph) ''urn:g'')
        (hierarchy_state (\<lambda>_. {}) (graph_store promotion_graph) ''urn:g'')) =
     [(''http://x.org/X'', True), (''http://x.org/Y'', True), (''http://x.org/P'', False),
      (''http://in.org/C'', False)]"
    by code_simp
  ultimately show ?thesis using i by simp
qed

section \<open>Properties of the property resolver\<close>

lemma superclass_loop_Suc:
  "superclass_loop store ont (Suc k) cur visited acc =
     (case first_parent store ont cur of
        None \<Rightarrow> (acc, 1)
      | Some p \<Rightarrow>
          if p \<in> visited \<or> p \<in> EXCLUDED_CLASSES then (acc, 1)
          else (let (chain, steps) =
                      superclass_loop store ont k p (insert p visited)
                        (acc @ [\<lparr>ref_uri = p,
                                 ref_label = py_or (hd (store (ParentQuery ont cur)) ''parentLabel'')
                                               (extract_local_name p)\<rparr>])
                in (chain, Suc steps)))"
  by (auto simp: first_parent_def split: list.splits option.splits)

lemma superclass_loop_props:
  assumes "superclass_loop store ont k cur visited acc = (chain, steps)"
  shows "\<exists>new. chain = acc @ new \<and> length new \<le> k \<and> steps = min k (length new + 1) \<and>
           (\<forall>i < length new. first_parent store ont ((cur # map ref_uri new) ! i) =
                               Some ((cur # map ref_uri new) ! Suc i)) \<and>
           distinct (map ref_uri new) \<and>
           set (map ref_uri new) \<inter> (visited \<union> EXCLUDED_CLASSES) = {} \<and>
           (length new < k \<longrightarrow>
              walk_stops store ont (last (cur # map ref_uri new))
                (visited \<union> set (map ref_uri new)))"
  using assms
proof (induction k arbitrary: cur visited acc chain steps)
  case 0
  then show ?case by simp
next
  case (Suc k)
  show ?case
  proof (cases "first_parent store ont cur")
    case None
    with Suc.prems have "chain = acc" "steps = 1" by (simp_all add: superclass_loop_Suc del: superclass_loop.simps)
    with None show ?thesis by (simp add: walk_stops_def)
  next
    case (Some p)
    show ?thesis
    proof (cases "p \<in> visited \<or> p \<in> EXCLUDED_CLASSES")
      case True
      with Some Suc.prems have "chain = acc" "steps = 1" by (simp_all add: superclass_loop_Suc del: superclass_loop.simps)
      with Some True show ?thesis by (simp add: walk_stops_def)
    next
      case False
      define x where "x = \<lparr>ref_uri = p,
          ref_label = py_or (hd (store (ParentQuery ont cur)) ''parentLabel'')
                        (extract_local_name p)\<rparr>"
      obtain chain' steps' where
        r: "superclass_loop store ont k p (insert p visited) (acc @ [x]) = (chain', steps')"
        by (cases "superclass_loop store ont k p (insert p visited) (acc @ [x])")
      with Some False Suc.prems have cs: "chain = chain'" "steps = Suc steps'"
        by (simp_all add: superclass_loop_Suc x_def del: superclass_loop.simps)
      from Suc.IH[OF r] obtain new where
        n1: "chain' = (acc @ [x]) @ new" and n2: "length new \<le> k"
        and n3: "steps' = min k (length new + 1)"
        and n4: "\<forall>i < length new. first_parent store ont ((p # map ref_uri new) ! i) =
                               Some ((p # map ref_uri new) ! Suc i)"
        and n5: "distinct (map ref_uri new)"
        and n6: "set (map ref_uri new) \<inter> (insert p visited \<union> EXCLUDED_CLASSES) = {}"
        and n7: "length new < k \<longrightarrow>
              walk_stops store ont (last (p # map ref_uri new))
                (insert p visited \<union> set (map ref_uri new))"
        by blast
      have px: "ref_uri x = p" by (simp add: x_def)
      have a: "chain = acc @ (x # new)" using cs n1 by simp
      have b: "length (x # new) \<le> Suc k" using n2 by simp
      have c: "steps = min (Suc k) (length (x # new) + 1)" using cs n3 by simp
      have d: "\<forall>i < length (x # new).
                 first_parent store ont ((cur # map ref_uri (x # new)) ! i) =
                   Some ((cur # map ref_uri (x # new)) ! Suc i)"
      proof (intro allI impI)
        fix i assume "i < length (x # new)"
        then show "first_parent store ont ((cur # map ref_uri (x # new)) ! i) =
                   Some ((cur # map ref_uri (x # new)) ! Suc i)"
          using n4 Some px by (cases i) simp_all
      qed
      have e: "distinct (map ref_uri (x # new))" using n5 n6 px by auto
      have f: "set (map ref_uri (x # new)) \<inter> (visited \<union> EXCLUDED_CLASSES) = {}"
        using n6 False px by auto
      have g: "length (x # new) < Suc k \<longrightarrow>
              walk_stops store ont (last (cur # map ref_uri (x # new)))
                (visited \<union> set (map ref_uri (x # new)))"
        using n7 px by (simp add: insert_commute Un_commute)
      from a b c d e f g show ?thesis by blast
    qed
  qed
qed

text \<open>
  C8. The walk up the superclass chain issues at most 50 parent queries and returns at
  most 50 ancestors; each ancestor is the parent that the query for its predecessor
  returned first; no ancestor repeats, equals the start or is an excluded root; and a
  walk that ends before the cap ends where there is no parent, or the parent was seen
  before, or the parent is an excluded root.
\<close>

theorem superclass_chain_bounded:
  assumes "superclass_walk store ont c = (chain, steps)"
  shows "steps \<le> 50 \<and> length chain \<le> 50 \<and> steps = min 50 (length chain + 1) \<and>
         get_superclass_chain store ont c = chain \<and>
         (\<forall>i < length chain. first_parent store ont ((c # map ref_uri chain) ! i) =
                               Some ((c # map ref_uri chain) ! Suc i)) \<and>
         distinct (c # map ref_uri chain) \<and>
         set (map ref_uri chain) \<inter> EXCLUDED_CLASSES = {} \<and>
         (length chain < 50 \<longrightarrow>
            walk_stops store ont (last (c # map ref_uri chain)) (set (c # map ref_uri chain)))"
proof -
  from superclass_loop_props[OF assms[unfolded superclass_walk_def]]
  obtain new where n: "chain = [] @ new" "length new \<le> 50" "steps = min 50 (length new + 1)"
    "\<forall>i < length new. first_parent store ont ((c # map ref_uri new) ! i) =
                               Some ((c # map ref_uri new) ! Suc i)"
    "distinct (map ref_uri new)"
    "set (map ref_uri new) \<inter> ({c} \<union> EXCLUDED_CLASSES) = {}"
    "length new < 50 \<longrightarrow>
              walk_stops store ont (last (c # map ref_uri new)) ({c} \<union> set (map ref_uri new))"
    by blast
  from n(1) have [simp]: "new = chain" by simp
  have "get_superclass_chain store ont c = chain"
    by (simp add: get_superclass_chain_def assms)
  moreover have "distinct (c # map ref_uri chain)" using n(5,6) by auto
  moreover have "set (map ref_uri chain) \<inter> EXCLUDED_CLASSES = {}" using n(6) by auto
  ultimately show ?thesis using n(2,3,4,7) by simp
qed

lemma cycle_walk:
  "superclass_walk (graph_store cycle_graph) ''urn:g'' ''http://a.org/A'' =
     ([\<lparr>ref_uri = ''http://a.org/B'', ref_label = ''B''\<rparr>], 2)"
  by code_simp

theorem superclass_chain_bounded_witness:
  "superclass_walk (graph_store cycle_graph) ''urn:g'' ''http://a.org/A'' =
     ([\<lparr>ref_uri = ''http://a.org/B'', ref_label = ''B''\<rparr>], 2) \<and>
   get_superclass_chain (graph_store cycle_graph) ''urn:g'' ''http://a.org/A'' =
     [\<lparr>ref_uri = ''http://a.org/B'', ref_label = ''B''\<rparr>] \<and>
   first_parent (graph_store cycle_graph) ''urn:g'' ''http://a.org/A'' = Some ''http://a.org/B'' \<and>
   walk_stops (graph_store cycle_graph) ''urn:g'' ''http://a.org/B''
     {''http://a.org/A'', ''http://a.org/B''}"
  using superclass_chain_bounded[OF cycle_walk] by (simp add: cycle_walk)

lemma inherit_fold_sorted:
  assumes "\<forall>g \<in> set (fst acc). sorted (map label_key (properties g))"
  shows "\<forall>g \<in> set (fst (fold (inherit_step store ont) ancestors acc)).
           sorted (map label_key (properties g))"
  using assms
proof (induction ancestors arbitrary: acc)
  case Nil
  then show ?case by simp
next
  case (Cons a ancestors)
  have "\<forall>g \<in> set (fst (inherit_step store ont a acc)). sorted (map label_key (properties g))"
    using Cons.prems
    by (cases acc) (auto simp: inherit_step_def Let_def)
  from Cons.IH[OF this] show ?case by simp
qed

lemma inheritance_run:
  "map label_key (domain_of (get_class_properties (graph_store inheritance_graph) ''urn:g''
        ''http://e.org/C'')) = [''B'', ''a''] \<and>
   map (\<lambda>g. (ref_uri (from_class g), map label_key (properties g)))
     (inherited (get_class_properties (graph_store inheritance_graph) ''urn:g''
        ''http://e.org/C'')) = [(''http://e.org/D'', [''Y'', ''z''])] \<and>
   map label_key (range_of (get_class_properties (graph_store inheritance_graph) ''urn:g''
        ''http://e.org/C'')) = [''R'', ''q'']"
  by code_simp

text \<open>
  C3, as claimed: the lists are sorted by label without regard to case. The sort key is
  the label itself: a class with the properties \<open>a\<close> and \<open>B\<close> gets \<open>B\<close> first, and
  likewise in the inherited group and in \<open>range_of\<close>.
\<close>

theorem class_properties_case_counterexample:
  "map label_key (domain_of (get_class_properties (graph_store inheritance_graph) ''urn:g''
        ''http://e.org/C'')) = [''B'', ''a''] \<and>
   \<not> sorted (map (\<lambda>x. lower (label_key x))
         (domain_of (get_class_properties (graph_store inheritance_graph) ''urn:g''
            ''http://e.org/C'')))"
proof -
  have "map (\<lambda>x. lower (label_key x)) xs = map lower (map label_key xs)" for xs
    by simp
  then show ?thesis
    by (simp only: inheritance_run) code_simp
qed

text \<open>
  C3, amended: \<open>domain_of\<close>, the properties of every inherited group and \<open>range_of\<close> are
  sorted by the key \<open>label or ""\<close> in the order of code points, in which the empty
  string is least and upper-case letters come before lower-case ones.
\<close>

theorem class_properties_sorted:
  "sorted (map label_key (domain_of (get_class_properties store ont c))) \<and>
   (\<forall>g \<in> set (inherited (get_class_properties store ont c)).
      sorted (map label_key (properties g))) \<and>
   sorted (map label_key (range_of (get_class_properties store ont c))) \<and>
   (\<forall>p q. label_key p = [] \<longrightarrow> label_key p \<le> label_key q)"
proof -
  have "\<forall>g \<in> set (fst (fold (inherit_step store ont) (get_superclass_chain store ont c)
                  ([], set (map fst (get_properties_for_class store ont c))))).
          sorted (map label_key (properties g))"
    by (rule inherit_fold_sorted) simp
  then show ?thesis
    by (simp add: get_class_properties_def Let_def)
qed

theorem class_properties_sorted_witness:
  "map label_key (domain_of (get_class_properties (graph_store inheritance_graph) ''urn:g''
        ''http://e.org/C'')) = [''B'', ''a''] \<and>
   map (\<lambda>g. (ref_uri (from_class g), map label_key (properties g)))
     (inherited (get_class_properties (graph_store inheritance_graph) ''urn:g''
        ''http://e.org/C'')) = [(''http://e.org/D'', [''Y'', ''z''])] \<and>
   map label_key (range_of (get_class_properties (graph_store inheritance_graph) ''urn:g''
        ''http://e.org/C'')) = [''R'', ''q''] \<and>
   sorted (map label_key (domain_of (get_class_properties (graph_store inheritance_graph) ''urn:g''
        ''http://e.org/C''))) \<and>
   sorted (map label_key (range_of (get_class_properties (graph_store inheritance_graph) ''urn:g''
        ''http://e.org/C'')))"
  using class_properties_sorted[of "graph_store inheritance_graph" "''urn:g''" "''http://e.org/C''"]
    inheritance_run
  by simp

lemma enumerated_range_value:
  "domain_of (get_class_properties (graph_store enumerated_range_graph) ''urn:g''
        ''http://e.org/Car'') =
   [\<lparr>PropertyInfo.uri = ''http://e.org/hasColour'', PropertyInfo.label = Some ''hasColour'',
     property_type = ''ObjectProperty'',
     domains = [\<lparr>ref_uri = ''http://e.org/Car'', ref_label = ''Car''\<rparr>],
     ranges = [\<lparr>ref_uri = ''http://e.org/Red'', ref_label = ''Red''\<rparr>]\<rparr>]"
  by code_simp

lemma enumerated_range_declared:
  "declared_ranges (graph_store enumerated_range_graph
       (DomainQuery ''urn:g'' ''http://e.org/Car'')) ''http://e.org/hasColour'' = []"
  by code_simp

lemma enumerated_range_members:
  "oneof_range_members (enumerated_range_graph ''urn:g'') ''http://e.org/hasColour'' =
     [IRI ''http://e.org/Red'', IRI ''http://e.org/Blue'']"
  by code_simp

text \<open>
  C4. A property without a concrete range whose blank-node range carries an
  \<open>owl:oneOf\<close> list must get every concrete member of the list as a range. The resolver
  does not meet this: \<open>_resolve_blank_node_range\<close>, documented to return the values in
  the list, reads \<open>rdf:first\<close> of the list node only and never follows \<open>rdf:rest\<close>, as
  the member queries of the code lists do. For a property whose range enumerates \<open>Red\<close>
  and \<open>Blue\<close>, and for which the domain query declares no concrete range, the ranges
  hold \<open>Red\<close> alone.
\<close>

theorem enumerated_range_first_member_only:
  "map (\<lambda>p. (PropertyInfo.uri p, map ref_uri (ranges p)))
     (domain_of (get_class_properties (graph_store enumerated_range_graph) ''urn:g''
        ''http://e.org/Car'')) =
     [(''http://e.org/hasColour'', [''http://e.org/Red''])] \<and>
   declared_ranges (graph_store enumerated_range_graph
       (DomainQuery ''urn:g'' ''http://e.org/Car'')) ''http://e.org/hasColour'' = [] \<and>
   oneof_range_members (enumerated_range_graph ''urn:g'') ''http://e.org/hasColour'' =
     [IRI ''http://e.org/Red'', IRI ''http://e.org/Blue'']"
  by (simp add: enumerated_range_value enumerated_range_declared enumerated_range_members)

section \<open>Properties of the code-list resolver\<close>

lemma colour_scheme_run:
  "get_codelist_info colour_scheme_store ''urn:g'' ''http://e.org/Colours'' =
     Inr (Some \<lparr>CodeListInfo.uri = ''http://e.org/Colours'', label = Some ''Colours'',
                 pattern = ''skos_scheme'', member_count = 3,
                 members =
                   [\<lparr>CodeListMember.uri = ''http://e.org/m2'', label = ''Amber'',
                      member_notation = Some ''2'', description = None\<rparr>,
                    \<lparr>CodeListMember.uri = ''http://e.org/m2'', label = ''Bernstein'',
                      member_notation = Some ''2'', description = None\<rparr>,
                    \<lparr>CodeListMember.uri = ''http://e.org/m1'', label = ''blue'',
                      member_notation = Some ''1'', description = None\<rparr>]\<rparr>)"
  by code_simp

lemma colour_scheme_members:
  "returned_members (get_codelist_info colour_scheme_store ''urn:g'' ''http://e.org/Colours'') =
     [\<lparr>CodeListMember.uri = ''http://e.org/m2'', label = ''Amber'',
        member_notation = Some ''2'', description = None\<rparr>,
      \<lparr>CodeListMember.uri = ''http://e.org/m2'', label = ''Bernstein'',
        member_notation = Some ''2'', description = None\<rparr>,
      \<lparr>CodeListMember.uri = ''http://e.org/m1'', label = ''blue'',
        member_notation = Some ''1'', description = None\<rparr>]"
  by (simp add: colour_scheme_run returned_members_def)

lemma filter_split:
  "filter P xs = A @ ys \<Longrightarrow> \<exists>u v. xs = u @ v \<and> filter P u = A \<and> filter P v = ys"
proof (induction xs arbitrary: A)
  case Nil
  then show ?case by simp
next
  case (Cons x xs)
  show ?case
  proof (cases "P x")
    case False
    with Cons.prems have "filter P xs = A @ ys" by simp
    from Cons.IH[OF this] obtain u v where "xs = u @ v" "filter P u = A" "filter P v = ys"
      by blast
    with False have "x # xs = (x # u) @ v \<and> filter P (x # u) = A \<and> filter P v = ys" by simp
    then show ?thesis by blast
  next
    case True
    show ?thesis
    proof (cases A)
      case Nil
      with Cons.prems have "x # xs = [] @ (x # xs) \<and> filter P [] = A \<and> filter P (x # xs) = ys"
        by simp
      then show ?thesis by blast
    next
      case (Cons a A')
      with True Cons.prems have "x = a" "filter P xs = A' @ ys" by simp_all
      from Cons.IH[OF this(2)] obtain u v where "xs = u @ v" "filter P u = A'" "filter P v = ys"
        by blast
      with True Cons \<open>x = a\<close>
      have "x # xs = (x # u) @ v \<and> filter P (x # u) = A \<and> filter P v = ys" by simp
      then show ?thesis by blast
    qed
  qed
qed

lemma filter_order:
  assumes "filter P xs = A @ a # B @ b # C"
  shows "\<exists>us vs ws. xs = us @ a # vs @ b # ws"
proof -
  from filter_split[OF assms] obtain u1 v1 where x: "xs = u1 @ v1"
    and v1: "filter P v1 = a # (B @ b # C)"
    by blast
  from v1 obtain u2 v2 where y: "v1 = u2 @ a # v2" and v2: "filter P v2 = B @ b # C"
    by (auto simp: filter_eq_Cons_iff)
  from filter_split[OF v2] obtain u3 v3 where z: "v2 = u3 @ v3" and v3: "filter P v3 = b # C"
    by blast
  from v3 obtain u4 v4 where w: "v3 = u4 @ b # v4"
    by (auto simp: filter_eq_Cons_iff)
  have "xs = (u1 @ u2) @ a # (u3 @ u4) @ b # v4" using x y z w by simp
  then show ?thesis by blast
qed

lemma stable_order:
  assumes "sort_key f xs = us @ a # vs @ b # ws" and "f a = f b"
  shows "\<exists>us' vs' ws'. xs = us' @ a # vs' @ b # ws'"
proof -
  have "filter (\<lambda>y. f y = f a) (sort_key f xs) = filter (\<lambda>y. f y = f a) xs"
    by (rule sort_key_stable)
  with assms have "filter (\<lambda>y. f y = f a) xs =
      filter (\<lambda>y. f y = f a) us @ a # filter (\<lambda>y. f y = f a) vs @ b # filter (\<lambda>y. f y = f a) ws"
    by simp
  then show ?thesis by (rule filter_order)
qed

lemma shade_scheme_run:
  "get_codelist_info shade_scheme_store ''urn:g'' ''http://e.org/Shades'' =
     Inr (Some \<lparr>CodeListInfo.uri = ''http://e.org/Shades'', label = Some ''Shades'',
                 pattern = ''skos_scheme'', member_count = 3,
                 members =
                   [\<lparr>CodeListMember.uri = ''http://e.org/m2'', label = ''Amber'',
                      member_notation = Some ''2'', description = None\<rparr>,
                    \<lparr>CodeListMember.uri = ''http://e.org/m1'', label = ''blue'',
                      member_notation = Some ''1'', description = None\<rparr>,
                    \<lparr>CodeListMember.uri = ''http://e.org/m3'', label = ''Blue'',
                      member_notation = Some ''3'', description = None\<rparr>]\<rparr>)"
  by code_simp

lemma shade_scheme_rows:
  "collect_members shade_scheme_store ''urn:g'' ''http://e.org/Shades'' ''skos_scheme'' =
     [\<lparr>CodeListMember.uri = ''http://e.org/m1'', label = ''blue'',
        member_notation = Some ''1'', description = None\<rparr>,
      \<lparr>CodeListMember.uri = ''http://e.org/m2'', label = ''Amber'',
        member_notation = Some ''2'', description = None\<rparr>,
      \<lparr>CodeListMember.uri = ''http://e.org/m3'', label = ''Blue'',
        member_notation = Some ''3'', description = None\<rparr>]"
  by code_simp

text \<open>
  C2, as claimed: the members are ordered by notation, then label, and no member occurs
  twice. The only sort is by lower-cased label, and a member with two labels comes in
  two rows: on a scheme whose query returns \<open>(m1, blue, 1)\<close>, \<open>(m2, Amber, 2)\<close>,
  \<open>(m2, Bernstein, 2)\<close> the result has notation \<open>2\<close> before \<open>1\<close> and \<open>m2\<close> twice.
\<close>

theorem codelist_order_counterexample:
  "\<not> sorted (map notation_label_key
       (returned_members (get_codelist_info colour_scheme_store ''urn:g'' ''http://e.org/Colours''))) \<and>
   \<not> distinct (map CodeListMember.uri
       (returned_members (get_codelist_info colour_scheme_store ''urn:g'' ''http://e.org/Colours'')))"
  by (simp only: colour_scheme_members) code_simp

text \<open>
  C2, amended: the returned members are sorted by lower-cased label, and two members
  whose lower-cased labels are equal come in the order in which the rows of the member
  query gave them. Every returned member is built from a row of that query, and every
  member URI of a row is returned.
\<close>

theorem codelist_sorted_by_label:
  assumes "get_codelist_info store g e = Inr (Some info)"
  shows "sorted (map (\<lambda>m. lower (CodeListMember.label m)) (members info)) \<and>
         set (members info) \<subseteq> set (collect_members store g e (pattern info)) \<and>
         CodeListMember.uri ` set (members info) =
           CodeListMember.uri ` set (collect_members store g e (pattern info)) \<and>
         (\<forall>us a vs b ws.
            members info = us @ a # vs @ b # ws \<and>
            lower (CodeListMember.label a) = lower (CodeListMember.label b) \<longrightarrow>
            (\<exists>us' vs' ws'. collect_members store g e (pattern info) = us' @ a # vs' @ b # ws'))"
proof -
  from assms obtain pat where
    "info = \<lparr>CodeListInfo.uri = e,
             label = Some (py_or (case store (LabelQuery g e) of [] \<Rightarrow> None | r # _ \<Rightarrow> r ''label'')
                             (extract_local_name e)),
             pattern = pat,
             member_count = length (sort_key (\<lambda>m. lower (CodeListMember.label m))
                                      (collect_members store g e pat)),
             members = sort_key (\<lambda>m. lower (CodeListMember.label m))
                         (collect_members store g e pat)\<rparr>"
    by (auto simp: get_codelist_info_def Let_def split: sum.splits option.splits if_splits)
  then have m: "members info = sort_key (\<lambda>m. lower (CodeListMember.label m))
                         (collect_members store g e (pattern info))"
    by simp
  have a: "sorted (map (\<lambda>m. lower (CodeListMember.label m)) (members info))"
    by (simp add: m)
  have b: "set (members info) = set (collect_members store g e (pattern info))"
    by (simp add: m)
  have c: "\<exists>us' vs' ws'. collect_members store g e (pattern info) = us' @ a # vs' @ b # ws'"
    if "members info = us @ a # vs @ b # ws"
      and "lower (CodeListMember.label a) = lower (CodeListMember.label b)" for us a vs b ws
    using stable_order[of "\<lambda>m. lower (CodeListMember.label m)"
        "collect_members store g e (pattern info)" us a vs b ws] that m
    by simp
  from a b c show ?thesis by blast
qed

theorem codelist_sorted_by_label_witness:
  "get_codelist_info shade_scheme_store ''urn:g'' ''http://e.org/Shades'' =
     Inr (Some \<lparr>CodeListInfo.uri = ''http://e.org/Shades'', label = Some ''Shades'',
                 pattern = ''skos_scheme'', member_count = 3,
                 members =
                   [\<lparr>CodeListMember.uri = ''http://e.org/m2'', label = ''Amber'',
                      member_notation = Some ''2'', description = None\<rparr>,
                    \<lparr>CodeListMember.uri = ''http://e.org/m1'', label = ''blue'',
                      member_notation = Some ''1'', description = None\<rparr>,
                    \<lparr>CodeListMember.uri = ''http://e.org/m3'', label = ''Blue'',
                      member_notation = Some ''3'', description = None\<rparr>]\<rparr>) \<and>
   collect_members shade_scheme_store ''urn:g'' ''http://e.org/Shades'' ''skos_scheme'' =
     [\<lparr>CodeListMember.uri = ''http://e.org/m1'', label = ''blue'',
        member_notation = Some ''1'', description = None\<rparr>,
      \<lparr>CodeListMember.uri = ''http://e.org/m2'', label = ''Amber'',
        member_notation = Some ''2'', description = None\<rparr>,
      \<lparr>CodeListMember.uri = ''http://e.org/m3'', label = ''Blue'',
        member_notation = Some ''3'', description = None\<rparr>] \<and>
   lower ''blue'' = lower ''Blue'' \<and>
   sorted (map (\<lambda>m. lower (CodeListMember.label m))
     [\<lparr>CodeListMember.uri = ''http://e.org/m2'', label = ''Amber'',
        member_notation = Some ''2'', description = None\<rparr>,
      \<lparr>CodeListMember.uri = ''http://e.org/m1'', label = ''blue'',
        member_notation = Some ''1'', description = None\<rparr>,
      \<lparr>CodeListMember.uri = ''http://e.org/m3'', label = ''Blue'',
        member_notation = Some ''3'', description = None\<rparr>]) \<and>
   (\<exists>us vs ws.
      [\<lparr>CodeListMember.uri = ''http://e.org/m1'', label = ''blue'',
         member_notation = Some ''1'', description = None\<rparr>,
       \<lparr>CodeListMember.uri = ''http://e.org/m2'', label = ''Amber'',
         member_notation = Some ''2'', description = None\<rparr>,
       \<lparr>CodeListMember.uri = ''http://e.org/m3'', label = ''Blue'',
         member_notation = Some ''3'', description = None\<rparr>] =
      us @ \<lparr>CodeListMember.uri = ''http://e.org/m1'', label = ''blue'',
              member_notation = Some ''1'', description = None\<rparr>
         # vs @ \<lparr>CodeListMember.uri = ''http://e.org/m3'', label = ''Blue'',
                   member_notation = Some ''3'', description = None\<rparr> # ws)"
proof -
  let ?m1 = "\<lparr>CodeListMember.uri = ''http://e.org/m1'', label = ''blue'',
              member_notation = Some ''1'', description = None\<rparr>"
  let ?m2 = "\<lparr>CodeListMember.uri = ''http://e.org/m2'', label = ''Amber'',
              member_notation = Some ''2'', description = None\<rparr>"
  let ?m3 = "\<lparr>CodeListMember.uri = ''http://e.org/m3'', label = ''Blue'',
              member_notation = Some ''3'', description = None\<rparr>"
  let ?info = "\<lparr>CodeListInfo.uri = ''http://e.org/Shades'', label = Some ''Shades'',
                 pattern = ''skos_scheme'', member_count = 3, members = [?m2, ?m1, ?m3]\<rparr>"
  have k: "lower ''blue'' = lower ''Blue''" by code_simp
  have m: "members ?info = [?m2] @ ?m1 # [] @ ?m3 # [] \<and>
           lower (CodeListMember.label ?m1) = lower (CodeListMember.label ?m3)"
    using k by simp
  note t = codelist_sorted_by_label[OF shade_scheme_run]
  have s: "sorted (map (\<lambda>m. lower (CodeListMember.label m)) (members ?info))"
    by (rule t[THEN conjunct1])
  have e: "\<exists>us' vs' ws'. collect_members shade_scheme_store ''urn:g'' ''http://e.org/Shades''
                (pattern ?info) = us' @ ?m1 # vs' @ ?m3 # ws'"
    by (rule t[THEN conjunct2, THEN conjunct2, THEN conjunct2, rule_format, OF m])
  have s': "sorted (map (\<lambda>m. lower (CodeListMember.label m)) [?m2, ?m1, ?m3])"
    using s by (simp only: CodeListInfo.simps)
  have e': "\<exists>us' vs' ws'. [?m1, ?m2, ?m3] = us' @ ?m1 # vs' @ ?m3 # ws'"
    using e by (simp only: CodeListInfo.simps shade_scheme_rows)
  show ?thesis
    by (intro conjI) (rule shade_scheme_run shade_scheme_rows k s' e')+
qed

text \<open>
  C6. The four existence queries are sent in the order \<open>skos_scheme\<close>, \<open>owl_oneof\<close>,
  \<open>owl_equivalent_oneof\<close>, \<open>skos_collection\<close>; the first whose count is positive
  decides the pattern and ends the detection, and when none is positive the answer is
  \<open>None\<close>. An entity with members in a scheme and an \<open>owl:oneOf\<close> list is a
  \<open>skos_scheme\<close>.
\<close>

theorem detection_precedence:
  "(\<exists>n > 0. fst (detect_codelist_pattern store g e) =
       take n [SkosMembersCount g e, OneOfCount g e, EquivOneOfCount g e, CollectionCount g e]) \<and>
   (count_positive (store (SkosMembersCount g e)) = Inr True \<longrightarrow>
      detect_codelist_pattern store g e = ([SkosMembersCount g e], Inr (Some ''skos_scheme''))) \<and>
   (count_positive (store (SkosMembersCount g e)) = Inr False \<and>
    count_positive (store (OneOfCount g e)) = Inr True \<longrightarrow>
      snd (detect_codelist_pattern store g e) = Inr (Some ''owl_oneof'')) \<and>
   (count_positive (store (SkosMembersCount g e)) = Inr False \<and>
    count_positive (store (OneOfCount g e)) = Inr False \<and>
    count_positive (store (EquivOneOfCount g e)) = Inr True \<longrightarrow>
      snd (detect_codelist_pattern store g e) = Inr (Some ''owl_equivalent_oneof'')) \<and>
   (count_positive (store (SkosMembersCount g e)) = Inr False \<and>
    count_positive (store (OneOfCount g e)) = Inr False \<and>
    count_positive (store (EquivOneOfCount g e)) = Inr False \<and>
    count_positive (store (CollectionCount g e)) = Inr True \<longrightarrow>
      snd (detect_codelist_pattern store g e) = Inr (Some ''skos_collection'')) \<and>
   (count_positive (store (SkosMembersCount g e)) = Inr False \<and>
    count_positive (store (OneOfCount g e)) = Inr False \<and>
    count_positive (store (EquivOneOfCount g e)) = Inr False \<and>
    count_positive (store (CollectionCount g e)) = Inr False \<longrightarrow>
      snd (detect_codelist_pattern store g e) = Inr None) \<and>
   (count_positive (store (SkosMembersCount g e)) = Inr True \<and>
    count_positive (store (OneOfCount g e)) = Inr True \<longrightarrow>
      snd (detect_codelist_pattern store g e) = Inr (Some ''skos_scheme''))"
proof -
  let ?qs = "[SkosMembersCount g e, OneOfCount g e, EquivOneOfCount g e, CollectionCount g e]"
  have t: "take (Suc 0) ?qs = [SkosMembersCount g e]"
    "take 2 ?qs = [SkosMembersCount g e, OneOfCount g e]"
    "take 3 ?qs = [SkosMembersCount g e, OneOfCount g e, EquivOneOfCount g e]"
    "take 4 ?qs = ?qs"
    by (simp_all add: eval_nat_numeral)
  have "fst (detect_codelist_pattern store g e) \<in> {take (Suc 0) ?qs, take 2 ?qs, take 3 ?qs, take 4 ?qs}"
    unfolding t
    by (simp add: detect_codelist_pattern_def Let_def split: sum.splits bool.splits)
  then have "\<exists>n > 0. fst (detect_codelist_pattern store g e) = take n ?qs"
    by (metis insertE singletonD zero_less_Suc zero_less_numeral)
  then show ?thesis
    by (simp add: detect_codelist_pattern_def Let_def)
qed

theorem detection_precedence_witness:
  "count_positive (colour_scheme_store (SkosMembersCount ''urn:g'' ''http://e.org/Colours'')) = Inr True \<and>
   count_positive (colour_scheme_store (OneOfCount ''urn:g'' ''http://e.org/Colours'')) = Inr True \<and>
   detect_codelist_pattern colour_scheme_store ''urn:g'' ''http://e.org/Colours'' =
     ([SkosMembersCount ''urn:g'' ''http://e.org/Colours''], Inr (Some ''skos_scheme''))"
proof -
  have a: "count_positive (colour_scheme_store (SkosMembersCount ''urn:g'' ''http://e.org/Colours'')) = Inr True"
    by code_simp
  have b: "count_positive (colour_scheme_store (OneOfCount ''urn:g'' ''http://e.org/Colours'')) = Inr True"
    by code_simp
  from detection_precedence[of colour_scheme_store "''urn:g''" "''http://e.org/Colours''"] a b
  show ?thesis by simp
qed

end
